theory Spec2Isabelle
  imports Complex_Main "HOL-Library.List_Lexorder" "HOL-Library.Char_ord"
begin

section \<open>Strings and durations\<close>

text \<open>
  Go strings are byte sequences and are modelled as \<^typ>\<open>string\<close>. Instants and durations
  (\<open>time.Time\<close>, \<open>time.Duration\<close>) are counted in nanoseconds as \<^typ>\<open>int\<close>; the 64-bit
  range of \<open>time.Duration\<close> is not modelled. Prices and share counts (\<open>float64\<close>) are
  modelled as \<^typ>\<open>real\<close>: the code compares prices with zero, multiplies and adds them.
\<close>

definition Second :: int where
  "Second = 1000000000"

definition Minute :: int where
  "Minute = 60 * Second"

definition Hour :: int where
  "Hour = 60 * Minute"

definition HasPrefix :: "string \<Rightarrow> string \<Rightarrow> bool" where
  "HasPrefix s p = (take (length p) s = p)"

text \<open>\<open>strings.Contains(s, substr)\<close>: \<open>substr\<close> occurs in \<open>s\<close> as a contiguous block.\<close>

fun Contains :: "string \<Rightarrow> string \<Rightarrow> bool" where
  "Contains [] substr = (substr = [])"
| "Contains (c # s) substr = (HasPrefix (c # s) substr \<or> Contains s substr)"

text \<open>\<open>strings.Join(parts, sep)\<close>.\<close>

fun Join :: "string list \<Rightarrow> string \<Rightarrow> string" where
  "Join [] sep = []"
| "Join [p] sep = p"
| "Join (p # q # ps) sep = p @ sep @ Join (q # ps) sep"

text \<open>
  \<open>strings.TrimSpace\<close> on the ASCII white space characters (tab, line feed, vertical tab,
  form feed, carriage return, space). Unicode white space outside ASCII is not modelled.
\<close>

definition isSpace :: "char \<Rightarrow> bool" where
  "isSpace c = (c \<in> {CHR 0x09, CHR 0x0A, CHR 0x0B, CHR 0x0C, CHR 0x0D, CHR 0x20})"

definition TrimSpace :: "string \<Rightarrow> string" where
  "TrimSpace s = rev (dropWhile isSpace (rev (dropWhile isSpace s)))"

text \<open>The verb \<open>%d\<close> of \<open>fmt\<close> on a non-negative integer.\<close>

fun digits :: "nat \<Rightarrow> string" where
  "digits n =
     (if n < 10 then [''0123456789'' ! n]
      else digits (n div 10) @ [''0123456789'' ! (n mod 10)])"

declare digits.simps [simp del]

text \<open>The verb \<open>%q\<close> of \<open>fmt\<close> on a string without characters that need escaping.\<close>

definition quoted :: "string \<Rightarrow> string" where
  "quoted s = [CHR 0x22] @ s @ [CHR 0x22]"

section \<open>The price cache (\<open>internal/finance/cache.go\<close>)\<close>

record Quote =
  Symbol :: string
  Price :: real
  Currency :: string

record cachedQuote =
  quote :: Quote
  fetchedAt :: int

record PriceCache =
  items :: "string \<rightharpoonup> cachedQuote"
  ttl :: int

definition NewPriceCache :: "int \<Rightarrow> PriceCache" where
  "NewPriceCache t = \<lparr>items = Map.empty, ttl = t\<rparr>"

text \<open>The zero value \<open>Quote{}\<close>.\<close>

definition Quote_zero :: Quote where
  "Quote_zero = \<lparr>Symbol = [], Price = 0, Currency = []\<rparr>"

text \<open>
  The methods that read the clock take the instant \<open>now\<close> that \<open>time.Now()\<close> and
  \<open>time.Since\<close> observe; a cache method runs under the cache lock and is taken to be
  instantaneous. \<open>Get\<close> returns the pair \<open>(quote, ok)\<close>.
\<close>

definition Get :: "PriceCache \<Rightarrow> int \<Rightarrow> string \<Rightarrow> Quote \<times> bool" where
  "Get pc now symbol =
     (case items pc symbol of
        None \<Rightarrow> (Quote_zero, False)
      | Some item \<Rightarrow>
          if now - fetchedAt item > ttl pc then (Quote_zero, False) else (quote item, True))"

definition Set_quote :: "PriceCache \<Rightarrow> int \<Rightarrow> string \<Rightarrow> Quote \<Rightarrow> PriceCache" where
  "Set_quote pc now symbol q = pc\<lparr>items := (items pc)(symbol \<mapsto> \<lparr>quote = q, fetchedAt = now\<rparr>)\<rparr>"

text \<open>The loop of \<open>GetMulti\<close>, with the two results under construction as accumulators.\<close>

fun GetMulti_loop ::
  "PriceCache \<Rightarrow> int \<Rightarrow> string list \<Rightarrow> (string \<rightharpoonup> Quote) \<Rightarrow> string list
     \<Rightarrow> (string \<rightharpoonup> Quote) \<times> string list" where
  "GetMulti_loop pc now [] found missing = (found, missing)"
| "GetMulti_loop pc now (symb # symbs) found missing =
     (case items pc symb of
        Some item \<Rightarrow>
          if now - fetchedAt item \<le> ttl pc
          then GetMulti_loop pc now symbs (found(symb \<mapsto> quote item)) missing
          else GetMulti_loop pc now symbs found (missing @ [symb])
      | None \<Rightarrow> GetMulti_loop pc now symbs found (missing @ [symb]))"

definition GetMulti :: "PriceCache \<Rightarrow> int \<Rightarrow> string list \<Rightarrow> (string \<rightharpoonup> Quote) \<times> string list" where
  "GetMulti pc now symbols = GetMulti_loop pc now symbols Map.empty []"

text \<open>
  \<open>SetMulti\<close> stamps every quote of the argument with one reading of the clock. The keys of
  a Go map are distinct, so the order of the \<open>range\<close> loop does not show in the result.
\<close>

definition SetMulti :: "PriceCache \<Rightarrow> int \<Rightarrow> (string \<rightharpoonup> Quote) \<Rightarrow> PriceCache" where
  "SetMulti pc now quotes =
     pc\<lparr>items := (\<lambda>symb. case quotes symb of
                           Some q \<Rightarrow> Some \<lparr>quote = q, fetchedAt = now\<rparr>
                         | None \<Rightarrow> items pc symb)\<rparr>"

text \<open>An entry is fresh at \<open>now\<close> when it exists and its age does not exceed the TTL.\<close>

definition fresh :: "PriceCache \<Rightarrow> int \<Rightarrow> string \<Rightarrow> bool" where
  "fresh pc now symb =
     (case items pc symb of None \<Rightarrow> False | Some item \<Rightarrow> now - fetchedAt item \<le> ttl pc)"

section \<open>The upstream and the client state (\<open>internal/finance/yahoo.go\<close>)\<close>

text \<open>
  The requests the client sends. A chart request is identified by the symbol of its path,
  the crumb of its query and the \<open>Cookie\<close> header; a crumb request by its \<open>Cookie\<close> header.
\<close>

datatype request =
    ConsentGet
  | CrumbGet string
  | ChartGet string string string

text \<open>
  The JSON object \<open>chart.result[i].meta\<close> as the upstream sends it: a key that is absent
  (or \<open>null\<close>) is \<open>None\<close>, and \<open>json.Unmarshal\<close> leaves the field of the Go struct at its
  zero value then. A number is the \<open>float64\<close> value that \<open>json.Unmarshal\<close> reads.
\<close>

record MetaJson =
  symbol_json :: "string option"
  currency_json :: "string option"
  regularMarketPrice_json :: "real option"
  chartPreviousClose_json :: "real option"

record Meta =
  meta_Symbol :: string
  meta_Currency :: string
  RegularMarketPrice :: real
  ChartPreviousClose :: real

definition unmarshal_meta :: "MetaJson \<Rightarrow> Meta" where
  "unmarshal_meta j =
     \<lparr>meta_Symbol = (case symbol_json j of None \<Rightarrow> [] | Some v \<Rightarrow> v),
      meta_Currency = (case currency_json j of None \<Rightarrow> [] | Some v \<Rightarrow> v),
      RegularMarketPrice = (case regularMarketPrice_json j of None \<Rightarrow> 0 | Some v \<Rightarrow> v),
      ChartPreviousClose = (case chartPreviousClose_json j of None \<Rightarrow> 0 | Some v \<Rightarrow> v)\<rparr>"

text \<open>
  The object \<open>chart\<close>: its \<open>result\<close> array and the description of its \<open>error\<close> object,
  \<open>None\<close> when the error is absent or \<open>null\<close>.
\<close>

record ChartJson =
  Result :: "MetaJson list"
  Error :: "string option"

text \<open>
  An HTTP response as the client reads it: the status code, the cookies of its
  \<open>Set-Cookie\<close> headers as pairs of name and value, what \<open>io.ReadAll\<close> makes of the body
  (an error or the bytes) and what \<open>json.Unmarshal\<close> makes of these bytes as a chart
  payload (an error or the decoded object).
\<close>

record Reply =
  StatusCode :: nat
  Cookies :: "(string \<times> string) list"
  Body :: "string + string"
  Chart :: "string + ChartJson"

text \<open>\<open>client.Do\<close> returns an error (no connection, timeout, cancelled context) or a response.\<close>

datatype response = TransportError string | Response Reply

record yahooSession =
  cookie :: string
  crumb :: string
  expiresAt :: int

definition sessionTTL :: int where
  "sessionTTL = 30 * Minute"

text \<open>
  The state of a \<open>YahooClient\<close> and of its surroundings: the shared cache, the cached
  session, the clock, the upstream and the requests sent so far, each with the instant it
  was sent at. The upstream answers the \<open>k\<close>-th request of the run with a response and the
  time the round trip took; computation between two round trips takes no time.
\<close>

record world =
  cache :: PriceCache
  session :: "yahooSession option"
  clock :: int
  upstream :: "nat \<Rightarrow> response \<times> nat"
  wire :: "(int \<times> request) list"

definition NewYahooClient :: "PriceCache \<Rightarrow> int \<Rightarrow> (nat \<Rightarrow> response \<times> nat) \<Rightarrow> world" where
  "NewYahooClient c t0 up = \<lparr>cache = c, session = None, clock = t0, upstream = up, wire = []\<rparr>"

text \<open>One round trip: the request goes on the wire and the clock advances.\<close>

definition Do :: "world \<Rightarrow> request \<Rightarrow> world \<times> response" where
  "Do w req =
     (let (resp, elapsed) = upstream w (length (wire w))
      in (w\<lparr>wire := wire w @ [(clock w, req)], clock := clock w + int elapsed\<rparr>, resp))"

definition extractCookies :: "Reply \<Rightarrow> string" where
  "extractCookies resp = Join (map (\<lambda>(name, val). name @ ''='' @ val) (Cookies resp)) ''; ''"

text \<open>
  \<open>fetchNewSession\<close>. The two \<open>http.NewRequestWithContext\<close> calls get constant, well-formed
  URLs and cannot fail. The status of neither response is looked at.
\<close>

definition fetchNewSession :: "world \<Rightarrow> world \<times> (string + yahooSession)" where
  "fetchNewSession w =
     (let (w1, consentResp) = Do w ConsentGet in
      case consentResp of
        TransportError err \<Rightarrow> (w1, Inl (''consent request: '' @ err))
      | Response consent \<Rightarrow>
          (let cookie = extractCookies consent in
           if cookie = [] then (w1, Inl ''no cookie returned from Yahoo consent endpoint'')
           else
             (let (w2, crumbResp) = Do w1 (CrumbGet cookie) in
              (case crumbResp of
                 TransportError err \<Rightarrow> (w2, Inl (''crumb request: '' @ err))
               | Response cr \<Rightarrow>
                   (case Body cr of
                      Inl err \<Rightarrow> (w2, Inl (''read crumb response: '' @ err))
                    | Inr crumbBytes \<Rightarrow>
                        (let crumb = TrimSpace crumbBytes in
                         if crumb = [] \<or> crumb = ''null''
                         then (w2, Inl (''Yahoo returned invalid crumb: '' @ quoted crumb))
                         else (w2, Inr \<lparr>cookie = cookie, crumb = crumb,
                                          expiresAt = clock w2 + sessionTTL\<rparr>)))))))"

definition getSession :: "world \<Rightarrow> world \<times> (string + yahooSession)" where
  "getSession w =
     (case session w of
        Some sess \<Rightarrow>
          if clock w < expiresAt sess then (w, Inr sess)
          else (let (w1, r) = fetchNewSession w in
                case r of Inl err \<Rightarrow> (w1, Inl err)
                        | Inr sess1 \<Rightarrow> (w1\<lparr>session := Some sess1\<rparr>, Inr sess1))
      | None \<Rightarrow>
          (let (w1, r) = fetchNewSession w in
           case r of Inl err \<Rightarrow> (w1, Inl err)
                   | Inr sess1 \<Rightarrow> (w1\<lparr>session := Some sess1\<rparr>, Inr sess1)))"

definition invalidateSession :: "world \<Rightarrow> world" where
  "invalidateSession w = w\<lparr>session := None\<rparr>"

text \<open>The test at the head of \<open>getSession\<close>: a session is cached and has not expired.\<close>

definition session_valid :: "world \<Rightarrow> bool" where
  "session_valid w = (case session w of None \<Rightarrow> False | Some sess \<Rightarrow> clock w < expiresAt sess)"

text \<open>\<open>parseChartResponse\<close>, on what \<open>json.Unmarshal\<close> made of the body.\<close>

definition parseChartResponse :: "string + ChartJson \<Rightarrow> string \<Rightarrow> string + Quote" where
  "parseChartResponse decoded symbol =
     (case decoded of
        Inl err \<Rightarrow> Inl (''parse chart response: '' @ err)
      | Inr payload \<Rightarrow>
          (case Error payload of
             Some description \<Rightarrow> Inl (''yahoo error: '' @ description)
           | None \<Rightarrow>
               (case Result payload of
                  [] \<Rightarrow> Inl (''no chart result for '' @ symbol)
                | r0 # _ \<Rightarrow>
                    let meta = unmarshal_meta r0;
                        price = RegularMarketPrice meta;
                        price = (if price = 0 then ChartPreviousClose meta else price)
                    in if price = 0 then Inl (''no price data for '' @ symbol)
                       else Inr \<lparr>Symbol = meta_Symbol meta, Price = price,
                                  Currency = meta_Currency meta\<rparr>)))"

definition StatusUnauthorized :: nat where "StatusUnauthorized = 401"
definition StatusForbidden :: nat where "StatusForbidden = 403"
definition StatusOK :: nat where "StatusOK = 200"

text \<open>
  \<open>fetchOne\<close>. The URL is built from escaped components and always parses, so
  \<open>http.NewRequestWithContext\<close> cannot fail.
\<close>

definition fetchOne :: "world \<Rightarrow> string \<Rightarrow> yahooSession \<Rightarrow> world \<times> (string + Quote)" where
  "fetchOne w symbol sess =
     (let (w1, r) = Do w (ChartGet symbol (crumb sess) (cookie sess)) in
      case r of
        TransportError err \<Rightarrow> (w1, Inl (''chart request: '' @ err))
      | Response resp \<Rightarrow>
          if StatusCode resp = StatusUnauthorized \<or> StatusCode resp = StatusForbidden
          then (w1, Inl (''auth error: HTTP '' @ digits (StatusCode resp)))
          else if StatusCode resp \<noteq> StatusOK
          then (w1, Inl (''HTTP '' @ digits (StatusCode resp) @ '' for '' @ symbol))
          else (case Body resp of
                  Inl err \<Rightarrow> (w1, Inl (''read chart response: '' @ err))
                | Inr body \<Rightarrow> (w1, parseChartResponse (Chart resp) symbol)))"

text \<open>\<open>isAuthError\<close> is applied to non-nil errors only; it searches the message.\<close>

definition isAuthError :: "string \<Rightarrow> bool" where
  "isAuthError s =
     (Contains s ''auth error'' \<or> Contains s ''HTTP 401'' \<or> Contains s ''HTTP 403'')"

text \<open>
  The body of the loop of \<open>fetchBatch\<close> for one symbol. It ends either with the quote to
  store and the session the loop goes on with (\<open>Inr\<close>), or with the error that
  \<open>fetchBatch\<close> returns at once (\<open>Inl\<close>).
\<close>

definition fetchBatch_step ::
  "world \<Rightarrow> yahooSession \<Rightarrow> string \<Rightarrow> world \<times> (string + Quote \<times> yahooSession)" where
  "fetchBatch_step w sess symb =
     (let (w1, r) = fetchOne w symb sess in
      case r of
        Inr q \<Rightarrow> (w1, Inr (q, sess))
      | Inl err \<Rightarrow>
          if isAuthError err then
            (let (w2, rs) = getSession (invalidateSession w1) in
             case rs of
               Inl err2 \<Rightarrow> (w2, Inl (''refresh yahoo session: '' @ err2))
             | Inr sess2 \<Rightarrow>
                 (let (w3, r2) = fetchOne w2 symb sess2 in
                  case r2 of
                    Inl err3 \<Rightarrow> (w3, Inl (''fetch '' @ symb @ '': '' @ err3))
                  | Inr q \<Rightarrow> (w3, Inr (q, sess2))))
          else (w1, Inl (''fetch '' @ symb @ '': '' @ err)))"

text \<open>
  The loop of \<open>fetchBatch\<close>, with the session variable and the map under construction.
  The results are the pair \<open>(quotes, err)\<close> that the Go function returns, \<open>None\<close> for a
  nil error.
\<close>

fun fetchBatch_loop ::
  "world \<Rightarrow> yahooSession \<Rightarrow> (string \<rightharpoonup> Quote) \<Rightarrow> string list
     \<Rightarrow> world \<times> (string \<rightharpoonup> Quote) \<times> string option" where
  "fetchBatch_loop w sess quotes [] = (w, quotes, None)"
| "fetchBatch_loop w sess quotes (symb # symbs) =
     (case fetchBatch_step w sess symb of
        (w1, Inl err) \<Rightarrow> (w1, quotes, Some err)
      | (w1, Inr (q, sess1)) \<Rightarrow> fetchBatch_loop w1 sess1 (quotes(symb \<mapsto> q)) symbs)"

text \<open>
  How far the loop gets: the state and the session variable with which it arrives behind a
  list of symbols when every round over the list ends with a quote, and \<open>None\<close> when a round
  over the list ends with an error.
\<close>

fun fetchBatch_upto :: "world \<Rightarrow> yahooSession \<Rightarrow> string list \<Rightarrow> (world \<times> yahooSession) option" where
  "fetchBatch_upto w sess [] = Some (w, sess)"
| "fetchBatch_upto w sess (symb # symbs) =
     (case fetchBatch_step w sess symb of
        (w1, Inl err) \<Rightarrow> None
      | (w1, Inr (q, sess1)) \<Rightarrow> fetchBatch_upto w1 sess1 symbs)"

text \<open>A nil map reads like an empty one; the first return hands back a nil map.\<close>

definition fetchBatch ::
  "world \<Rightarrow> string list \<Rightarrow> world \<times> (string \<rightharpoonup> Quote) \<times> string option" where
  "fetchBatch w symbols =
     (let (w1, rs) = getSession w in
      case rs of
        Inl err \<Rightarrow> (w1, Map.empty, Some (''get yahoo session: '' @ err))
      | Inr sess \<Rightarrow> fetchBatch_loop w1 sess Map.empty symbols)"

text \<open>
  \<open>GetQuotes\<close> in two parts. The first is the bulk lookup, which runs under the read lock
  of the cache. The second, \<open>GetQuotes_fetch\<close>, is everything after the lookup: no lock is
  held between the two, and the fetch takes the session lock and the write lock of the
  cache only for the calls \<open>getSession\<close> and \<open>SetMulti\<close>.
\<close>

definition GetQuotes_fetch ::
  "world \<Rightarrow> (string \<rightharpoonup> Quote) \<Rightarrow> string list \<Rightarrow> world \<times> (string \<rightharpoonup> Quote) \<times> string option" where
  "GetQuotes_fetch w found missing =
     (if missing = [] then (w, found, None)
      else
        let (w1, fetched, err) = fetchBatch w missing in
        case err of
          Some e \<Rightarrow> (w1, found, Some e)
        | None \<Rightarrow> (w1\<lparr>cache := SetMulti (cache w1) (clock w1) fetched\<rparr>, found ++ fetched, None))"

definition GetQuotes ::
  "world \<Rightarrow> string list \<Rightarrow> world \<times> (string \<rightharpoonup> Quote) \<times> string option" where
  "GetQuotes w symbols =
     (if symbols = [] then (w, Map.empty, None)
      else
        let (found, missing) = GetMulti (cache w) (clock w) symbols
        in GetQuotes_fetch w found missing)"

text \<open>
  Two callers of \<open>GetQuotes\<close> on one client, scheduled so that both lookups run before
  either fetch: the first caller's lookup, the second caller's lookup, the first caller's
  fetch, the second caller's fetch. The result holds the final state and what each caller
  returns.
\<close>

definition GetQuotes_overlapped ::
  "world \<Rightarrow> string list \<Rightarrow> string list
     \<Rightarrow> world \<times> ((string \<rightharpoonup> Quote) \<times> string option) \<times> ((string \<rightharpoonup> Quote) \<times> string option)" where
  "GetQuotes_overlapped w symbols1 symbols2 =
     (let (found1, missing1) = GetMulti (cache w) (clock w) symbols1;
          (found2, missing2) = GetMulti (cache w) (clock w) symbols2;
          (w1, res1) = GetQuotes_fetch w found1 missing1;
          (w2, res2) = GetQuotes_fetch w1 found2 missing2
      in (w2, res1, res2))"

text \<open>The chart requests for one symbol among the requests sent.\<close>

fun chart_for :: "string \<Rightarrow> int \<times> request \<Rightarrow> bool" where
  "chart_for x (t, ChartGet symbol cr ck) = (symbol = x)"
| "chart_for x (t, ConsentGet) = False"
| "chart_for x (t, CrumbGet ck) = False"

definition chart_calls :: "world \<Rightarrow> string \<Rightarrow> (int \<times> request) list" where
  "chart_calls w x = filter (chart_for x) (wire w)"

section \<open>Configuration (\<open>cmd/bot/main.go\<close>)\<close>

record config =
  TelegramToken :: string
  DBPath :: string
  CacheTTL :: int
  NotifyInterval :: int

text \<open>
  The process environment is a function from variable names to values, the empty string
  for an unset variable, as \<open>os.Getenv\<close> reads it once \<open>godotenv.Load\<close> has run.
\<close>

definition getEnv :: "(string \<Rightarrow> string) \<Rightarrow> string \<Rightarrow> string \<Rightarrow> string" where
  "getEnv env key fallback = (if env key \<noteq> [] then env key else fallback)"

text \<open>\<open>mustEnv\<close> ends the process through \<open>log.Fatalf\<close> when the variable is unset.\<close>

definition mustEnv :: "(string \<Rightarrow> string) \<Rightarrow> string \<Rightarrow> string + string" where
  "mustEnv env key =
     (if env key = [] then Inl (''required env var '' @ key @ '' is not set'') else Inr (env key))"

text \<open>\<open>loadConfig\<close>; \<open>time.ParseDuration\<close> is the parameter \<open>ParseDuration\<close>.\<close>

definition loadConfig :: "(string \<Rightarrow> string + int) \<Rightarrow> (string \<Rightarrow> string) \<Rightarrow> string + config" where
  "loadConfig ParseDuration env =
     (let cacheTTL = (case ParseDuration (getEnv env ''CACHE_TTL'' ''15m'') of
                        Inl err \<Rightarrow> 15 * Minute
                      | Inr d \<Rightarrow> d);
          notifyInterval = (case ParseDuration (getEnv env ''NOTIFY_INTERVAL'' ''1h'') of
                              Inl err \<Rightarrow> Hour
                            | Inr d \<Rightarrow> d)
      in case mustEnv env ''TELEGRAM_BOT_TOKEN'' of
           Inl fatal \<Rightarrow> Inl fatal
         | Inr token \<Rightarrow>
             Inr \<lparr>TelegramToken = token,
                  DBPath = getEnv env ''DB_PATH'' ''./portfolio.db'',
                  CacheTTL = cacheTTL,
                  NotifyInterval = notifyInterval\<rparr>)"

text \<open>
  What \<open>main\<close> builds from the configuration for the quote path: the cache with the
  configured TTL and the client on top of it, started at instant \<open>t0\<close> against the
  upstream \<open>up\<close>.
\<close>

definition main_client ::
  "(string \<Rightarrow> string + int) \<Rightarrow> (string \<Rightarrow> string) \<Rightarrow> int \<Rightarrow> (nat \<Rightarrow> response \<times> nat)
     \<Rightarrow> string + world" where
  "main_client ParseDuration env t0 up =
     (case loadConfig ParseDuration env of
        Inl fatal \<Rightarrow> Inl fatal
      | Inr cfg \<Rightarrow> Inr (NewYahooClient (NewPriceCache (CacheTTL cfg)) t0 up))"

section \<open>Holdings (\<open>internal/db/repository.go\<close>)\<close>

record Holding =
  ID :: int
  ChatID :: int
  holding_Symbol :: string
  Name :: string
  Shares :: real

datatype query = QueryHoldings int | QueryActiveUsers | QueryDistinctSymbols

text \<open>
  The repository is read only here: the rows of the table \<open>holdings\<close> in the order a scan
  yields them, and for each query the error the database answers it with, if any.
\<close>

record Repository =
  rows :: "Holding list"
  failing :: "query \<Rightarrow> string option"

definition GetHoldings :: "Repository \<Rightarrow> int \<Rightarrow> string + Holding list" where
  "GetHoldings r chatID =
     (case failing r (QueryHoldings chatID) of
        Some err \<Rightarrow> Inl err
      | None \<Rightarrow> Inr (sort_key holding_Symbol (filter (\<lambda>h. ChatID h = chatID) (rows r))))"

definition GetAllActiveUsers :: "Repository \<Rightarrow> string + int list" where
  "GetAllActiveUsers r =
     (case failing r QueryActiveUsers of
        Some err \<Rightarrow> Inl err
      | None \<Rightarrow> Inr (remdups (map ChatID (rows r))))"

definition GetDistinctSymbols :: "Repository \<Rightarrow> string + string list" where
  "GetDistinctSymbols r =
     (case failing r QueryDistinctSymbols of
        Some err \<Rightarrow> Inl err
      | None \<Rightarrow> Inr (sort (remdups (map holding_Symbol (rows r)))))"

section \<open>Balances (\<open>internal/portfolio/service.go\<close>)\<close>

record HoldingLine =
  line_Symbol :: string
  line_Name :: string
  line_Shares :: real
  line_Price :: real
  Value :: real

record BalanceReport =
  Holdings :: "HoldingLine list"
  TotalUSD :: real

text \<open>The verb \<open>%v\<close> of \<open>fmt\<close> on a slice of strings.\<close>

definition fmt_strings :: "string list \<Rightarrow> string" where
  "fmt_strings xs = ''['' @ Join xs '' '' @ '']''"

fun ComputeBalance_loop :: "(string \<rightharpoonup> Quote) \<Rightarrow> Holding list \<Rightarrow> BalanceReport \<Rightarrow> BalanceReport" where
  "ComputeBalance_loop quotes [] report = report"
| "ComputeBalance_loop quotes (h # hs) report =
     (case quotes (holding_Symbol h) of
        None \<Rightarrow> ComputeBalance_loop quotes hs report
      | Some q \<Rightarrow>
          (let val = Shares h * Price q in
           ComputeBalance_loop quotes hs
             (report\<lparr>Holdings := Holdings report @
                        [\<lparr>line_Symbol = holding_Symbol h, line_Name = Name h,
                          line_Shares = Shares h, line_Price = Price q, Value = val\<rparr>],
                     TotalUSD := TotalUSD report + val\<rparr>)))"

text \<open>\<open>ComputeBalance\<close> returns \<open>(report, err)\<close>; the report is \<open>None\<close> for a nil pointer.\<close>

definition ComputeBalance ::
  "Repository \<Rightarrow> world \<Rightarrow> int \<Rightarrow> world \<times> (string + BalanceReport option)" where
  "ComputeBalance r w chatID =
     (case GetHoldings r chatID of
        Inl err \<Rightarrow> (w, Inl (''get holdings: '' @ err))
      | Inr holdings \<Rightarrow>
          if holdings = [] then (w, Inr None)
          else
            (let symbols = map holding_Symbol holdings;
                 (w1, quotes, err) = GetQuotes w symbols
             in case err of
                  Some e \<Rightarrow> (w1, Inl (''get quotes: '' @ e))
                | None \<Rightarrow>
                    (let report = ComputeBalance_loop quotes holdings \<lparr>Holdings = [], TotalUSD = 0\<rparr>
                     in if Holdings report = []
                        then (w1, Inl (''quotes returned no data for symbols '' @ fmt_strings symbols))
                        else (w1, Inr (Some report)))))"

section \<open>The scheduler (\<open>internal/scheduler/scheduler.go\<close>)\<close>

text \<open>
  The loop of \<open>notifyAll\<close> over the active users. \<open>Format\<close> renders a report
  (\<open>BalanceReport.Format\<close>, which prints floating point numbers) and is a parameter; the
  calls of \<open>SendMarkdown\<close> are collected in order. Log lines are left out.
\<close>

fun notify_loop ::
  "(BalanceReport \<Rightarrow> string) \<Rightarrow> Repository \<Rightarrow> world \<Rightarrow> int list \<Rightarrow> (int \<times> string) list
     \<Rightarrow> world \<times> (int \<times> string) list" where
  "notify_loop Format r w [] sent = (w, sent)"
| "notify_loop Format r w (chatID # users) sent =
     (let (w1, res) = ComputeBalance r w chatID in
      case res of
        Inl err \<Rightarrow> notify_loop Format r w1 users sent
      | Inr None \<Rightarrow> notify_loop Format r w1 users sent
      | Inr (Some report) \<Rightarrow>
          if Holdings report = [] then notify_loop Format r w1 users sent
          else notify_loop Format r w1 users (sent @ [(chatID, Format report)]))"

definition notifyAll ::
  "(BalanceReport \<Rightarrow> string) \<Rightarrow> Repository \<Rightarrow> world \<Rightarrow> world \<times> (int \<times> string) list" where
  "notifyAll Format r w =
     (case GetDistinctSymbols r of
        Inl err \<Rightarrow> (w, [])
      | Inr symbols \<Rightarrow>
          if symbols = [] then (w, [])
          else
            (let (w1, prewarmed) = GetQuotes w symbols in
             case GetAllActiveUsers r of
               Inl err \<Rightarrow> (w1, [])
             | Inr users \<Rightarrow> notify_loop Format r w1 users []))"

section \<open>Sample states\<close>

text \<open>A cache holding one quote for AAPL written at instant 0, with a TTL of 15 minutes.\<close>

definition demo_cache :: PriceCache where
  "demo_cache =
     \<lparr>items = [''AAPL'' \<mapsto> \<lparr>quote = \<lparr>Symbol = ''AAPL'', Price = 150, Currency = ''USD''\<rparr>,
                              fetchedAt = 0\<rparr>],
      ttl = 15 * Minute\<rparr>"

text \<open>A chart payload of a closed market: no live price, a previous close of 99.5.\<close>

definition closed_market :: ChartJson where
  "closed_market =
     \<lparr>Result = [\<lparr>symbol_json = Some ''AAPL'', currency_json = Some ''USD'',
                  regularMarketPrice_json = None, chartPreviousClose_json = Some 99.5\<rparr>],
      Error = None\<rparr>"

text \<open>
  Responses: a plain text response whose body is no chart payload, and a chart response with
  a live price, whose bytes stand for the JSON text of the payload.
\<close>

definition text_reply :: "nat \<Rightarrow> (string \<times> string) list \<Rightarrow> string \<Rightarrow> Reply" where
  "text_reply code cs body =
     \<lparr>StatusCode = code, Cookies = cs, Body = Inr body, Chart = Inl ''invalid character''\<rparr>"

definition chart_reply :: "string \<Rightarrow> real \<Rightarrow> Reply" where
  "chart_reply symbol price =
     \<lparr>StatusCode = 200, Cookies = [], Body = Inr ''<chart>'',
      Chart = Inr \<lparr>Result = [\<lparr>symbol_json = Some symbol, currency_json = Some ''USD'',
                                regularMarketPrice_json = Some price,
                                chartPreviousClose_json = None\<rparr>],
                    Error = None\<rparr>\<rparr>"

text \<open>An upstream that answers the requests of a run from a list, each round trip taking
  20 milliseconds; past the end of the list the connection fails.\<close>

definition scripted :: "response list \<Rightarrow> nat \<Rightarrow> response \<times> nat" where
  "scripted rs k = (if k < length rs then (rs ! k, 20000000) else (TransportError ''EOF'', 20000000))"

definition consent_ok :: response where
  "consent_ok = Response (text_reply 200 [(''A3'', ''d=AQAB'')] [])"

definition crumb_ok :: response where
  "crumb_ok = Response (text_reply 200 [] ''mJ8Zx0 '')"

text \<open>A client without a session on an empty cache with a TTL of 15 minutes, at instant 0.\<close>

definition fresh_client :: "response list \<Rightarrow> world" where
  "fresh_client rs = NewYahooClient (NewPriceCache (15 * Minute)) 0 (scripted rs)"

text \<open>A client holding a session that expires at minute 30, at minute 1.\<close>

definition old_session :: yahooSession where
  "old_session = \<lparr>cookie = ''A3=d=AQAB'', crumb = ''mJ8Zx0'', expiresAt = 30 * Minute\<rparr>"

definition client_in_session :: "response list \<Rightarrow> world" where
  "client_in_session rs =
     (NewYahooClient (NewPriceCache (15 * Minute)) Minute (scripted rs))
       \<lparr>session := Some old_session\<rparr>"

text \<open>
  Three uncached symbols of which the second fails: the session is acquired, AAPL answers
  with a price, MSFT with a server error; TSLA would answer with a price.
\<close>

definition middle_fails :: world where
  "middle_fails =
     fresh_client [consent_ok, crumb_ok, Response (chart_reply ''AAPL'' 150),
                   Response (text_reply 500 [] []), Response (chart_reply ''TSLA'' 250)]"

text \<open>Two uncached symbols that both answer with a price.\<close>

definition both_answer :: world where
  "both_answer =
     fresh_client [consent_ok, crumb_ok, Response (chart_reply ''AAPL'' 150),
                   Response (chart_reply ''MSFT'' 420)]"

text \<open>Two uncached symbols of which the second fails.\<close>

definition second_fails :: world where
  "second_fails =
     fresh_client [consent_ok, crumb_ok, Response (chart_reply ''AAPL'' 150),
                   Response (text_reply 500 [] [])]"

text \<open>The sample cache five minutes after its entry was written, no upstream reachable.\<close>

definition warm_client :: world where
  "warm_client = NewYahooClient demo_cache (5 * Minute) (scripted [])"

text \<open>The sample cache sixteen minutes after its entry was written.\<close>

definition stale_client :: world where
  "stale_client =
     NewYahooClient demo_cache (16 * Minute)
       (scripted [consent_ok, crumb_ok, Response (chart_reply ''AAPL'' 152)])"

text \<open>
  A client in session whose chart request is refused: once, with the session exchange failing
  for lack of a cookie; and twice, around a session exchange that succeeds.
\<close>

definition refused_no_refresh :: world where
  "refused_no_refresh =
     client_in_session [Response (text_reply 401 [] []), Response (text_reply 200 [] [])]"

definition refused_twice :: world where
  "refused_twice =
     client_in_session [Response (text_reply 401 [] []),
                        Response (text_reply 200 [(''A3'', ''d=NEW'')] []),
                        Response (text_reply 200 [] ''Zz9''),
                        Response (text_reply 403 [] []),
                        Response (chart_reply ''MSFT'' 420)]"

text \<open>A fresh client whose upstream prices AAPL at 150 and, asked again, at 151.\<close>

definition asked_twice :: world where
  "asked_twice =
     fresh_client [consent_ok, crumb_ok, Response (chart_reply ''AAPL'' 150),
                   Response (chart_reply ''AAPL'' 151)]"

text \<open>
  An environment that sets the bot token and \<open>RATE_LIMIT_PER_SEC\<close> to one request per
  second, a duration parser that knows the two default durations, and an upstream that
  answers three symbols.
\<close>

definition limited_env :: "string \<Rightarrow> string" where
  "limited_env key =
     (if key = ''TELEGRAM_BOT_TOKEN'' then ''123:abc''
      else if key = ''RATE_LIMIT_PER_SEC'' then ''1'' else [])"

definition sample_durations :: "string \<Rightarrow> string + int" where
  "sample_durations s =
     (if s = ''15m'' then Inr (15 * Minute) else if s = ''1h'' then Inr Hour
      else Inl ''time: invalid duration'')"

definition three_answer :: "nat \<Rightarrow> response \<times> nat" where
  "three_answer =
     scripted [consent_ok, crumb_ok, Response (chart_reply ''AAPL'' 150),
               Response (chart_reply ''MSFT'' 420), Response (chart_reply ''TSLA'' 250)]"

text \<open>
  Consumer 1 holds AAPL, consumer 2 holds AAPL and TSLA, consumer 3 holds nothing. In the
  second repository the holdings query of consumer 1 fails.
\<close>

definition sample_repo :: Repository where
  "sample_repo =
     \<lparr>rows = [\<lparr>ID = 1, ChatID = 1, holding_Symbol = ''AAPL'', Name = ''Apple'', Shares = 2\<rparr>,
              \<lparr>ID = 2, ChatID = 2, holding_Symbol = ''TSLA'', Name = ''Tesla'', Shares = 3\<rparr>,
              \<lparr>ID = 3, ChatID = 2, holding_Symbol = ''AAPL'', Name = ''Apple'', Shares = 1\<rparr>],
      failing = (\<lambda>q. None)\<rparr>"

definition locked_repo :: Repository where
  "locked_repo =
     sample_repo\<lparr>failing := (\<lambda>q. if q = QueryHoldings 1 then Some ''database is locked'' else None)\<rparr>"

text \<open>A rendering of a report that lists its symbols.\<close>

definition sample_format :: "BalanceReport \<Rightarrow> string" where
  "sample_format report = Join (map line_Symbol (Holdings report)) '', ''"

definition tick_world :: world where
  "tick_world =
     fresh_client [consent_ok, crumb_ok, Response (chart_reply ''AAPL'' 150),
                   Response (chart_reply ''TSLA'' 250)]"

section \<open>Evaluating the sample states\<close>

lemmas fixture_defs = fresh_client_def scripted_def consent_ok_def crumb_ok_def
  text_reply_def chart_reply_def NewYahooClient_def NewPriceCache_def Minute_def Second_def

lemmas run_defs = GetQuotes_def GetQuotes_fetch_def GetMulti_def SetMulti_def fetchBatch_def
  fetchBatch_step_def getSession_def invalidateSession_def fetchNewSession_def Do_def
  extractCookies_def TrimSpace_def isSpace_def quoted_def fetchOne_def parseChartResponse_def
  unmarshal_meta_def isAuthError_def HasPrefix_def StatusOK_def StatusUnauthorized_def
  StatusForbidden_def sessionTTL_def digits.simps Let_def

lemma triple: "p = (fst p, fst (snd p), snd (snd p))"
  by simp

section \<open>The cache lookup\<close>

lemma GetMulti_loop_spec:
  "GetMulti_loop pc now symbs found missing =
     ((\<lambda>s. if s \<in> set symbs \<and> fresh pc now s then map_option quote (items pc s) else found s),
      missing @ filter (\<lambda>s. \<not> fresh pc now s) symbs)"
proof (induction symbs arbitrary: found missing)
  case Nil
  show ?case by simp
next
  case (Cons a symbs)
  show ?case
    by (cases "items pc a") (auto simp: Cons.IH fresh_def fun_eq_iff)
qed

lemma GetMulti_spec:
  "GetMulti pc now symbols =
     ((\<lambda>s. if s \<in> set symbols \<and> fresh pc now s then map_option quote (items pc s) else None),
      filter (\<lambda>s. \<not> fresh pc now s) symbols)"
  by (simp add: GetMulti_def GetMulti_loop_spec)

text \<open>
  Claim C10. \<open>GetMulti\<close> partitions its request: a requested symbol with a fresh entry is a
  key of the found map, bound to the cached quote, and is not in the missing list; any other
  requested symbol is in the missing list and is not a key; the found map has no key that
  was not requested, and the missing list is the request without the found keys, in order.
\<close>

theorem GetMulti_partition:
  assumes "GetMulti pc now symbols = (found, missing)"
  shows "(\<forall>s \<in> set symbols.
            (fresh pc now s \<longrightarrow>
               (\<exists>item. items pc s = Some item \<and> found s = Some (quote item)) \<and> s \<notin> set missing)
          \<and> (\<not> fresh pc now s \<longrightarrow> found s = None \<and> s \<in> set missing))
         \<and> dom found \<subseteq> set symbols
         \<and> missing = filter (\<lambda>s. found s = None) symbols"
proof -
  from assms have f: "found = (\<lambda>s. if s \<in> set symbols \<and> fresh pc now s then map_option quote (items pc s) else None)"
    and m: "missing = filter (\<lambda>s. \<not> fresh pc now s) symbols"
    by (simp_all add: GetMulti_spec)
  have fr: "\<And>s. fresh pc now s \<Longrightarrow> \<exists>item. items pc s = Some item"
    by (auto simp: fresh_def split: option.splits)
  have 1: "\<forall>s \<in> set symbols.
            (fresh pc now s \<longrightarrow>
               (\<exists>item. items pc s = Some item \<and> found s = Some (quote item)) \<and> s \<notin> set missing)
          \<and> (\<not> fresh pc now s \<longrightarrow> found s = None \<and> s \<in> set missing)"
    using fr by (fastforce simp: f m)
  have 2: "dom found \<subseteq> set symbols"
    by (auto simp: f split: if_splits)
  have 3: "missing = filter (\<lambda>s. found s = None) symbols"
    unfolding m f using fr by (intro filter_cong) auto
  from 1 2 3 show ?thesis by blast
qed

text \<open>The partition at a request for a cached and an unknown symbol, five minutes in.\<close>

theorem GetMulti_partition_witness:
  "GetMulti demo_cache (5 * Minute) [''AAPL'', ''MSFT'']
     = ([''AAPL'' \<mapsto> \<lparr>Symbol = ''AAPL'', Price = 150, Currency = ''USD''\<rparr>], [''MSFT''])
   \<and> dom [''AAPL'' \<mapsto> \<lparr>Symbol = ''AAPL'', Price = 150, Currency = ''USD''\<rparr>] \<subseteq> set [''AAPL'', ''MSFT'']
   \<and> [''MSFT''] = filter (\<lambda>s. [''AAPL'' \<mapsto> \<lparr>Symbol = ''AAPL'', Price = 150, Currency = ''USD''\<rparr>] s = None) [''AAPL'', ''MSFT'']"
proof -
  have h: "GetMulti demo_cache (5 * Minute) [''AAPL'', ''MSFT'']
     = ([''AAPL'' \<mapsto> \<lparr>Symbol = ''AAPL'', Price = 150, Currency = ''USD''\<rparr>], [''MSFT''])"
    by (simp add: GetMulti_def demo_cache_def Minute_def Second_def fun_eq_iff)
  from GetMulti_partition [OF h] h show ?thesis by blast
qed

section \<open>Price extraction\<close>

text \<open>
  Claim C6. A quote that \<open>parseChartResponse\<close> returns never has price zero. On a payload
  without an error object and with a first result, the price is the regular market price
  when that is present and not zero, else the previous close when that is present and not
  zero, else the symbol fails with the error \<open>no price data for\<close> followed by the symbol.
\<close>

theorem parseChartResponse_price:
  "(\<forall>q. parseChartResponse decoded symbol = Inr q \<longrightarrow> Price q \<noteq> 0)
   \<and> (Error payload = None \<and> Result payload = r0 # rest \<longrightarrow>
        parseChartResponse (Inr payload) symbol =
          (let live = (case regularMarketPrice_json r0 of None \<Rightarrow> 0 | Some v \<Rightarrow> v);
               prev = (case chartPreviousClose_json r0 of None \<Rightarrow> 0 | Some v \<Rightarrow> v);
               sy = (case symbol_json r0 of None \<Rightarrow> [] | Some v \<Rightarrow> v);
               cu = (case currency_json r0 of None \<Rightarrow> [] | Some v \<Rightarrow> v)
           in if live \<noteq> 0 then Inr \<lparr>Symbol = sy, Price = live, Currency = cu\<rparr>
              else if prev \<noteq> 0 then Inr \<lparr>Symbol = sy, Price = prev, Currency = cu\<rparr>
              else Inl (''no price data for '' @ symbol)))"
proof -
  have nz: "\<forall>q. parseChartResponse decoded symbol = Inr q \<longrightarrow> Price q \<noteq> 0"
    by (auto simp: parseChartResponse_def Let_def split: sum.splits option.splits list.splits if_splits)
  have pr: "Error payload = None \<and> Result payload = r0 # rest \<longrightarrow>
        parseChartResponse (Inr payload) symbol =
          (let live = (case regularMarketPrice_json r0 of None \<Rightarrow> 0 | Some v \<Rightarrow> v);
               prev = (case chartPreviousClose_json r0 of None \<Rightarrow> 0 | Some v \<Rightarrow> v);
               sy = (case symbol_json r0 of None \<Rightarrow> [] | Some v \<Rightarrow> v);
               cu = (case currency_json r0 of None \<Rightarrow> [] | Some v \<Rightarrow> v)
           in if live \<noteq> 0 then Inr \<lparr>Symbol = sy, Price = live, Currency = cu\<rparr>
              else if prev \<noteq> 0 then Inr \<lparr>Symbol = sy, Price = prev, Currency = cu\<rparr>
              else Inl (''no price data for '' @ symbol))"
    by (simp add: parseChartResponse_def unmarshal_meta_def Let_def)
  from nz pr show ?thesis by blast
qed

text \<open>A payload without a live price falls back to the previous close of 99.5.\<close>

theorem parseChartResponse_price_witness:
  "Error closed_market = None
   \<and> parseChartResponse (Inr closed_market) ''AAPL''
       = Inr \<lparr>Symbol = ''AAPL'', Price = 99.5, Currency = ''USD''\<rparr>
   \<and> Price \<lparr>Symbol = ''AAPL'', Price = 99.5, Currency = ''USD''\<rparr> \<noteq> 0"
  using parseChartResponse_price [of "Inr closed_market" "''AAPL''" closed_market
      "hd (Result closed_market)" "[]"]
  by (simp add: closed_market_def)

section \<open>Session acquisition\<close>

lemma Do_props:
  assumes "Do w req = (w', r)"
  shows "cache w' = cache w" "session w' = session w" "upstream w' = upstream w"
    "wire w' = wire w @ [(clock w, req)]" "clock w \<le> clock w'"
    "r = fst (upstream w (length (wire w)))"
  using assms by (auto simp: Do_def split: prod.splits)

lemma Join_nonempty: "p \<noteq> [] \<Longrightarrow> Join (p # ps) sep \<noteq> []"
  by (cases ps) auto

lemma extractCookies_empty: "extractCookies resp = [] \<longleftrightarrow> Cookies resp = []"
proof (cases "Cookies resp")
  case Nil
  then show ?thesis by (simp add: extractCookies_def)
next
  case (Cons c cs)
  obtain n v where c: "c = (n, v)" by (cases c)
  have "Join ((n @ ''='' @ v) # map (\<lambda>(name, val). name @ ''='' @ val) cs) ''; '' \<noteq> []"
    by (rule Join_nonempty) simp
  with Cons c show ?thesis by (simp add: extractCookies_def)
qed

lemma fetchNewSession_props:
  assumes "fetchNewSession w = (w', r)"
  shows "cache w' = cache w" "session w' = session w" "upstream w' = upstream w"
    "\<exists>new. wire w' = wire w @ new \<and> (\<forall>x. filter (chart_for x) new = [])"
    "clock w \<le> clock w'"
  using assms
  by (auto simp: fetchNewSession_def Do_def Let_def
      split: prod.splits response.splits sum.splits if_splits)

lemma getSession_valid:
  "session w = Some sess \<Longrightarrow> clock w < expiresAt sess \<Longrightarrow> getSession w = (w, Inr sess)"
  by (simp add: getSession_def)

lemma getSession_invalid:
  "\<not> session_valid w \<Longrightarrow>
   getSession w = (let (w1, r) = fetchNewSession w in
                   case r of Inl err \<Rightarrow> (w1, Inl err)
                           | Inr sess1 \<Rightarrow> (w1\<lparr>session := Some sess1\<rparr>, Inr sess1))"
  by (auto simp: getSession_def session_valid_def split: option.splits)

lemma getSession_props:
  assumes "getSession w = (w', r)"
  shows "cache w' = cache w" "upstream w' = upstream w"
    "\<exists>new. wire w' = wire w @ new \<and> (\<forall>x. filter (chart_for x) new = [])"
    "clock w \<le> clock w'"
    "\<And>e. r = Inl e \<Longrightarrow> session w' = session w"
    "\<And>s. r = Inr s \<Longrightarrow> session w' = Some s"
proof -
  obtain w1 r1 where f: "fetchNewSession w = (w1, r1)" by (cases "fetchNewSession w")
  note p = fetchNewSession_props [OF f]
  from assms f have cases: "(w' = w \<and> (\<exists>s. r = Inr s \<and> session w = Some s))
      \<or> (w' = w1 \<and> (\<exists>e. r = Inl e))
      \<or> (\<exists>s. w' = w1\<lparr>session := Some s\<rparr> \<and> r = Inr s)"
    by (auto simp: getSession_def split: option.splits if_splits sum.splits)
  show "cache w' = cache w" using cases p by auto
  show "upstream w' = upstream w" using cases p by auto
  show "\<exists>new. wire w' = wire w @ new \<and> (\<forall>x. filter (chart_for x) new = [])"
    using cases p(4) by auto
  show "clock w \<le> clock w'" using cases p by auto
  show "\<And>e. r = Inl e \<Longrightarrow> session w' = session w" using cases p by auto
  show "\<And>s. r = Inr s \<Longrightarrow> session w' = Some s" using cases p by auto
qed

text \<open>
  Claim C8. A session that is cached and not expired is returned with the state unchanged,
  so without a request. Whenever \<open>getSession\<close> fails, the cached session is the one from
  before the call. It fails in particular when a session has to be acquired and the consent
  response carries no cookie (step 1), and when the trimmed crumb body is empty or the
  word \<open>null\<close> (step 2).
\<close>

theorem getSession_failure_and_reuse:
  "(\<forall>sess. session w = Some sess \<and> clock w < expiresAt sess \<longrightarrow> getSession w = (w, Inr sess))
   \<and> (\<forall>w' err. getSession w = (w', Inl err) \<longrightarrow> session w' = session w)
   \<and> (\<forall>consent d. \<not> session_valid w \<and> upstream w (length (wire w)) = (Response consent, d)
          \<and> Cookies consent = [] \<longrightarrow>
        snd (getSession w) = Inl ''no cookie returned from Yahoo consent endpoint''
        \<and> session (fst (getSession w)) = session w)
   \<and> (\<forall>consent d cr d2 crumbBytes. \<not> session_valid w
          \<and> upstream w (length (wire w)) = (Response consent, d) \<and> Cookies consent \<noteq> []
          \<and> upstream w (Suc (length (wire w))) = (Response cr, d2) \<and> Body cr = Inr crumbBytes
          \<and> (TrimSpace crumbBytes = [] \<or> TrimSpace crumbBytes = ''null'') \<longrightarrow>
        snd (getSession w) = Inl (''Yahoo returned invalid crumb: '' @ quoted (TrimSpace crumbBytes))
        \<and> session (fst (getSession w)) = session w)"
proof -
  have 1: "\<forall>sess. session w = Some sess \<and> clock w < expiresAt sess \<longrightarrow> getSession w = (w, Inr sess)"
    by (simp add: getSession_valid)
  have 2: "\<forall>w' err. getSession w = (w', Inl err) \<longrightarrow> session w' = session w"
    using getSession_props(5) by blast
  have 3: "\<forall>consent d. \<not> session_valid w \<and> upstream w (length (wire w)) = (Response consent, d)
          \<and> Cookies consent = [] \<longrightarrow>
        snd (getSession w) = Inl ''no cookie returned from Yahoo consent endpoint''
        \<and> session (fst (getSession w)) = session w"
    by (auto simp: getSession_invalid fetchNewSession_def Do_def extractCookies_empty)
  have 4: "\<forall>consent d cr d2 crumbBytes. \<not> session_valid w
          \<and> upstream w (length (wire w)) = (Response consent, d) \<and> Cookies consent \<noteq> []
          \<and> upstream w (Suc (length (wire w))) = (Response cr, d2) \<and> Body cr = Inr crumbBytes
          \<and> (TrimSpace crumbBytes = [] \<or> TrimSpace crumbBytes = ''null'') \<longrightarrow>
        snd (getSession w) = Inl (''Yahoo returned invalid crumb: '' @ quoted (TrimSpace crumbBytes))
        \<and> session (fst (getSession w)) = session w"
    by (auto simp: getSession_invalid fetchNewSession_def Do_def extractCookies_empty Let_def)
  from 1 2 3 4 show ?thesis by blast
qed

text \<open>
  A client in session returns it untouched; a consent response without cookies and a crumb
  body \<open>null\<close> both fail and leave a client without a session as it was.
\<close>

theorem getSession_failure_and_reuse_witness:
  "getSession (client_in_session []) =
     (client_in_session [], Inr old_session)
   \<and> snd (getSession (fresh_client [Response (text_reply 200 [] [])]))
       = Inl ''no cookie returned from Yahoo consent endpoint''
   \<and> session (fst (getSession (fresh_client [Response (text_reply 200 [] [])]))) = None
   \<and> snd (getSession (fresh_client [consent_ok, Response (text_reply 200 [] '' null '')]))
       = Inl (''Yahoo returned invalid crumb: '' @ quoted ''null'')
   \<and> session (fst (getSession (fresh_client [consent_ok, Response (text_reply 200 [] '' null '')]))) = None"
  using getSession_failure_and_reuse [of "client_in_session []"]
    getSession_failure_and_reuse [of "fresh_client [Response (text_reply 200 [] [])]"]
    getSession_failure_and_reuse [of "fresh_client [consent_ok, Response (text_reply 200 [] '' null '')]"]
  by (simp add: fixture_defs client_in_session_def old_session_def session_valid_def TrimSpace_def isSpace_def)

section \<open>What a batch fetch does to the state\<close>

lemma fetchOne_props:
  assumes "fetchOne w symbol sess = (w', r)"
  shows "cache w' = cache w" "session w' = session w" "upstream w' = upstream w"
    "wire w' = wire w @ [(clock w, ChartGet symbol (crumb sess) (cookie sess))]"
    "clock w \<le> clock w'"
  using assms
  by (auto simp: fetchOne_def Do_def Let_def split: prod.splits response.splits sum.splits if_splits)

text \<open>What one round of the loop does to the state.\<close>

lemma fetchBatch_step_props:
  assumes "fetchBatch_step w sess symb = (w', r)"
  shows "cache w' = cache w" "upstream w' = upstream w" "clock w \<le> clock w'"
    "\<exists>new. wire w' = wire w @ new \<and> (\<forall>x. x \<noteq> symb \<longrightarrow> filter (chart_for x) new = [])"
proof -
  obtain w1 r1 where f1: "fetchOne w symb sess = (w1, r1)" by (cases "fetchOne w symb sess")
  note p1 = fetchOne_props [OF f1]
  obtain w2 rs where g: "getSession (invalidateSession w1) = (w2, rs)"
    by (cases "getSession (invalidateSession w1)")
  note p2 = getSession_props(1-4) [OF g]
  from p2(3) obtain new2 where n2: "wire w2 = wire w1 @ new2" "\<forall>x. filter (chart_for x) new2 = []"
    by (auto simp: invalidateSession_def)
  have c2: "cache w2 = cache w" "upstream w2 = upstream w" "clock w \<le> clock w2"
    using p1 p2 by (auto simp: invalidateSession_def)
  have w2: "\<exists>new. wire w2 = wire w @ new \<and> (\<forall>x. x \<noteq> symb \<longrightarrow> filter (chart_for x) new = [])"
    using n2 p1(4) by auto
  have w1: "\<exists>new. wire w1 = wire w @ new \<and> (\<forall>x. x \<noteq> symb \<longrightarrow> filter (chart_for x) new = [])"
    using p1(4) by auto
  consider (one) "w' = w1" | (two) "w' = w2"
    | (three) sess2 r3 where "fetchOne w2 symb sess2 = (w', r3)"
    using assms f1 g
    by (auto simp: fetchBatch_step_def split: sum.splits if_splits prod.splits)
  then have "cache w' = cache w \<and> upstream w' = upstream w \<and> clock w \<le> clock w'
    \<and> (\<exists>new. wire w' = wire w @ new \<and> (\<forall>x. x \<noteq> symb \<longrightarrow> filter (chart_for x) new = []))"
  proof cases
    case one
    then show ?thesis using p1 w1 by simp
  next
    case two
    then show ?thesis using c2 w2 by simp
  next
    case three
    note p3 = fetchOne_props [OF three]
    from w2 obtain new where "wire w2 = wire w @ new" "\<forall>x. x \<noteq> symb \<longrightarrow> filter (chart_for x) new = []"
      by blast
    then have "wire w' = wire w @ (new @ [(clock w2, ChartGet symb (crumb sess2) (cookie sess2))])
        \<and> (\<forall>x. x \<noteq> symb \<longrightarrow> filter (chart_for x) (new @ [(clock w2, ChartGet symb (crumb sess2) (cookie sess2))]) = [])"
      using p3(4) by simp
    then have "\<exists>new. wire w' = wire w @ new \<and> (\<forall>x. x \<noteq> symb \<longrightarrow> filter (chart_for x) new = [])"
      by blast
    then show ?thesis using p3 c2 by simp
  qed
  then show "cache w' = cache w" "upstream w' = upstream w" "clock w \<le> clock w'"
    "\<exists>new. wire w' = wire w @ new \<and> (\<forall>x. x \<noteq> symb \<longrightarrow> filter (chart_for x) new = [])"
    by blast+
qed

text \<open>
  The loop: what it leaves alone, what it adds, and that an error ends it at the first
  symbol that fails, before any later symbol is asked for.
\<close>

lemma fetchBatch_loop_props:
  "fetchBatch_loop w sess quotes symbs = (w', quotes', err) \<Longrightarrow>
     cache w' = cache w \<and> upstream w' = upstream w \<and> clock w \<le> clock w'
     \<and> (\<forall>x. x \<notin> set symbs \<longrightarrow> quotes' x = quotes x)
     \<and> (\<forall>x. quotes x \<noteq> None \<longrightarrow> quotes' x \<noteq> None)
     \<and> (err = None \<longrightarrow> (\<forall>x \<in> set symbs. quotes' x \<noteq> None))
     \<and> (\<exists>new. wire w' = wire w @ new
           \<and> (\<forall>x. x \<notin> set symbs \<longrightarrow> filter (chart_for x) new = [])
           \<and> (err \<noteq> None \<longrightarrow>
                (\<exists>pre failed post. symbs = pre @ failed # post
                   \<and> (\<forall>x. x \<notin> set pre \<longrightarrow> quotes' x = quotes x)
                   \<and> (\<forall>x. x \<notin> set (pre @ [failed]) \<longrightarrow> filter (chart_for x) new = []))))"
proof (induction symbs arbitrary: w sess quotes)
  case Nil
  then show ?case by simp
next
  case (Cons symb symbs)
  obtain w1 r where st: "fetchBatch_step w sess symb = (w1, r)"
    by (cases "fetchBatch_step w sess symb")
  note p = fetchBatch_step_props [OF st]
  from p(4) obtain new1 where n1: "wire w1 = wire w @ new1"
    "\<forall>x. x \<noteq> symb \<longrightarrow> filter (chart_for x) new1 = []" by blast
  show ?case
  proof (cases r)
    case (Inl e)
    with Cons.prems st have eq: "w' = w1" "quotes' = quotes" "err = Some e" by simp_all
    have "symb # symbs = [] @ symb # symbs
        \<and> (\<forall>x. x \<notin> set [] \<longrightarrow> quotes' x = quotes x)
        \<and> (\<forall>x. x \<notin> set ([] @ [symb]) \<longrightarrow> filter (chart_for x) new1 = [])"
      using n1 eq by simp
    then have "\<exists>pre failed post. symb # symbs = pre @ failed # post
        \<and> (\<forall>x. x \<notin> set pre \<longrightarrow> quotes' x = quotes x)
        \<and> (\<forall>x. x \<notin> set (pre @ [failed]) \<longrightarrow> filter (chart_for x) new1 = [])"
      by - (rule exI [of _ "[]"], rule exI [of _ symb], rule exI [of _ symbs], assumption)
    then have "\<exists>new. wire w' = wire w @ new
           \<and> (\<forall>x. x \<notin> set (symb # symbs) \<longrightarrow> filter (chart_for x) new = [])
           \<and> (err \<noteq> None \<longrightarrow>
                (\<exists>pre failed post. symb # symbs = pre @ failed # post
                   \<and> (\<forall>x. x \<notin> set pre \<longrightarrow> quotes' x = quotes x)
                   \<and> (\<forall>x. x \<notin> set (pre @ [failed]) \<longrightarrow> filter (chart_for x) new = [])))"
      using n1 eq by (intro exI [of _ new1]) simp
    then show ?thesis using p eq by simp
  next
    case (Inr qs)
    obtain q sess1 where qs: "qs = (q, sess1)" by (cases qs)
    with Inr Cons.prems st have rec: "fetchBatch_loop w1 sess1 (quotes(symb \<mapsto> q)) symbs = (w', quotes', err)"
      by simp
    note ih = Cons.IH [OF rec]
    note ih1 = ih [THEN conjunct1] ih [THEN conjunct2, THEN conjunct1]
      ih [THEN conjunct2, THEN conjunct2, THEN conjunct1]
    note ih2 = ih [THEN conjunct2, THEN conjunct2, THEN conjunct2, THEN conjunct1]
    note ih3 = ih [THEN conjunct2, THEN conjunct2, THEN conjunct2, THEN conjunct2, THEN conjunct1]
    note ih4 = ih [THEN conjunct2, THEN conjunct2, THEN conjunct2, THEN conjunct2, THEN conjunct2,
      THEN conjunct1]
    note ih5 = ih [THEN conjunct2, THEN conjunct2, THEN conjunct2, THEN conjunct2, THEN conjunct2,
      THEN conjunct2]
    from ih5 obtain new2 where n2: "wire w' = wire w1 @ new2"
      "\<forall>x. x \<notin> set symbs \<longrightarrow> filter (chart_for x) new2 = []"
      "err \<noteq> None \<longrightarrow> (\<exists>pre failed post. symbs = pre @ failed # post
                   \<and> (\<forall>x. x \<notin> set pre \<longrightarrow> quotes' x = (quotes(symb \<mapsto> q)) x)
                   \<and> (\<forall>x. x \<notin> set (pre @ [failed]) \<longrightarrow> filter (chart_for x) new2 = []))"
      by (elim exE conjE)
    have a: "wire w' = wire w @ (new1 @ new2)" using n1 n2 by simp
    have b: "\<forall>x. x \<notin> set (symb # symbs) \<longrightarrow> filter (chart_for x) (new1 @ new2) = []"
      using n1 n2 by simp
    have c: "err \<noteq> None \<longrightarrow> (\<exists>pre failed post. symb # symbs = pre @ failed # post
                   \<and> (\<forall>x. x \<notin> set pre \<longrightarrow> quotes' x = quotes x)
                   \<and> (\<forall>x. x \<notin> set (pre @ [failed]) \<longrightarrow> filter (chart_for x) (new1 @ new2) = []))"
    proof
      assume "err \<noteq> None"
      with n2(3) obtain pre failed post where pf: "symbs = pre @ failed # post"
        "\<forall>x. x \<notin> set pre \<longrightarrow> quotes' x = (quotes(symb \<mapsto> q)) x"
        "\<forall>x. x \<notin> set (pre @ [failed]) \<longrightarrow> filter (chart_for x) new2 = []" by blast
      have "symb # symbs = (symb # pre) @ failed # post
          \<and> (\<forall>x. x \<notin> set (symb # pre) \<longrightarrow> quotes' x = quotes x)
          \<and> (\<forall>x. x \<notin> set ((symb # pre) @ [failed]) \<longrightarrow> filter (chart_for x) (new1 @ new2) = [])"
        using pf n1 by simp
      then show "\<exists>pre failed post. symb # symbs = pre @ failed # post
                   \<and> (\<forall>x. x \<notin> set pre \<longrightarrow> quotes' x = quotes x)
                   \<and> (\<forall>x. x \<notin> set (pre @ [failed]) \<longrightarrow> filter (chart_for x) (new1 @ new2) = [])"
        by - (rule exI [of _ "symb # pre"], rule exI [of _ failed], rule exI [of _ post], assumption)
    qed
    have d: "\<exists>new. wire w' = wire w @ new
           \<and> (\<forall>x. x \<notin> set (symb # symbs) \<longrightarrow> filter (chart_for x) new = [])
           \<and> (err \<noteq> None \<longrightarrow>
                (\<exists>pre failed post. symb # symbs = pre @ failed # post
                   \<and> (\<forall>x. x \<notin> set pre \<longrightarrow> quotes' x = quotes x)
                   \<and> (\<forall>x. x \<notin> set (pre @ [failed]) \<longrightarrow> filter (chart_for x) new = [])))"
      using a b c by (intro exI [of _ "new1 @ new2"] conjI)
    have e: "\<forall>x. x \<notin> set (symb # symbs) \<longrightarrow> quotes' x = quotes x"
      using ih2 by simp
    have f: "\<forall>x. quotes x \<noteq> None \<longrightarrow> quotes' x \<noteq> None"
      using ih3 by (simp split: if_splits)
    have g: "err = None \<longrightarrow> (\<forall>x \<in> set (symb # symbs). quotes' x \<noteq> None)"
      using ih3 ih4 by (simp split: if_splits)
    from p(1-3) ih1 d e f g show ?thesis by (intro conjI) simp_all
  qed
qed


lemma fetchBatch_props:
  assumes "fetchBatch w symbols = (w', fetched, err)"
  shows "cache w' = cache w" "upstream w' = upstream w" "clock w \<le> clock w'"
    "\<forall>x. x \<notin> set symbols \<longrightarrow> fetched x = None"
    "err = None \<longrightarrow> (\<forall>x \<in> set symbols. fetched x \<noteq> None)"
    "\<exists>new. wire w' = wire w @ new
       \<and> (\<forall>x. x \<notin> set symbols \<longrightarrow> filter (chart_for x) new = [])
       \<and> (err \<noteq> None \<and> symbols \<noteq> [] \<longrightarrow>
            (\<exists>pre failed post. symbols = pre @ failed # post
               \<and> (\<forall>x. x \<notin> set (pre @ [failed]) \<longrightarrow> filter (chart_for x) new = [])))"
proof -
  obtain w1 rs where g: "getSession w = (w1, rs)" by (cases "getSession w")
  note p = getSession_props(1-4) [OF g]
  from p(3) obtain new1 where n1: "wire w1 = wire w @ new1" "\<forall>x. filter (chart_for x) new1 = []"
    by blast
  have main: "(cache w' = cache w) \<and> (upstream w' = upstream w) \<and> (clock w \<le> clock w')
      \<and> (\<forall>x. x \<notin> set symbols \<longrightarrow> fetched x = None)
      \<and> (err = None \<longrightarrow> (\<forall>x \<in> set symbols. fetched x \<noteq> None))
      \<and> (\<exists>new. wire w' = wire w @ new
       \<and> (\<forall>x. x \<notin> set symbols \<longrightarrow> filter (chart_for x) new = [])
       \<and> (err \<noteq> None \<and> symbols \<noteq> [] \<longrightarrow>
            (\<exists>pre failed post. symbols = pre @ failed # post
               \<and> (\<forall>x. x \<notin> set (pre @ [failed]) \<longrightarrow> filter (chart_for x) new = []))))"
  proof (cases rs)
    case (Inl e)
    with assms g have eq: "w' = w1" "fetched = Map.empty" "err = Some (''get yahoo session: '' @ e)"
      by (simp_all add: fetchBatch_def)
    have ex: "symbols \<noteq> [] \<longrightarrow> (\<exists>pre failed post. symbols = pre @ failed # post
               \<and> (\<forall>x. x \<notin> set (pre @ [failed]) \<longrightarrow> filter (chart_for x) new1 = []))"
    proof
      assume "symbols \<noteq> []"
      then obtain a as where "symbols = a # as" by (cases symbols) auto
      then have "symbols = [] @ a # as
          \<and> (\<forall>x. x \<notin> set ([] @ [a]) \<longrightarrow> filter (chart_for x) new1 = [])"
        using n1 by simp
      then show "\<exists>pre failed post. symbols = pre @ failed # post
               \<and> (\<forall>x. x \<notin> set (pre @ [failed]) \<longrightarrow> filter (chart_for x) new1 = [])"
        by - (rule exI [of _ "[]"], rule exI [of _ a], rule exI [of _ as], assumption)
    qed
    have "wire w' = wire w @ new1
       \<and> (\<forall>x. x \<notin> set symbols \<longrightarrow> filter (chart_for x) new1 = [])
       \<and> (err \<noteq> None \<and> symbols \<noteq> [] \<longrightarrow>
            (\<exists>pre failed post. symbols = pre @ failed # post
               \<and> (\<forall>x. x \<notin> set (pre @ [failed]) \<longrightarrow> filter (chart_for x) new1 = [])))"
      using n1 eq ex by simp
    then have "\<exists>new. wire w' = wire w @ new
       \<and> (\<forall>x. x \<notin> set symbols \<longrightarrow> filter (chart_for x) new = [])
       \<and> (err \<noteq> None \<and> symbols \<noteq> [] \<longrightarrow>
            (\<exists>pre failed post. symbols = pre @ failed # post
               \<and> (\<forall>x. x \<notin> set (pre @ [failed]) \<longrightarrow> filter (chart_for x) new = [])))"
      by (rule exI)
    then show ?thesis
      using p eq by simp
  next
    case (Inr sess)
    with assms g have l: "fetchBatch_loop w1 sess Map.empty symbols = (w', fetched, err)"
      by (simp add: fetchBatch_def)
    note lp = fetchBatch_loop_props [OF l]
    note l1 = lp [THEN conjunct1] lp [THEN conjunct2, THEN conjunct1]
      lp [THEN conjunct2, THEN conjunct2, THEN conjunct1]
    note l2 = lp [THEN conjunct2, THEN conjunct2, THEN conjunct2, THEN conjunct1]
    note l4 = lp [THEN conjunct2, THEN conjunct2, THEN conjunct2, THEN conjunct2, THEN conjunct2,
      THEN conjunct1]
    note l5 = lp [THEN conjunct2, THEN conjunct2, THEN conjunct2, THEN conjunct2, THEN conjunct2,
      THEN conjunct2]
    from l5 obtain new2 where n2: "wire w' = wire w1 @ new2"
      "\<forall>x. x \<notin> set symbols \<longrightarrow> filter (chart_for x) new2 = []"
      "err \<noteq> None \<longrightarrow> (\<exists>pre failed post. symbols = pre @ failed # post
                   \<and> (\<forall>x. x \<notin> set pre \<longrightarrow> fetched x = Map.empty x)
                   \<and> (\<forall>x. x \<notin> set (pre @ [failed]) \<longrightarrow> filter (chart_for x) new2 = []))"
      by (elim exE conjE)
    have c: "err \<noteq> None \<and> symbols \<noteq> [] \<longrightarrow> (\<exists>pre failed post. symbols = pre @ failed # post
               \<and> (\<forall>x. x \<notin> set (pre @ [failed]) \<longrightarrow> filter (chart_for x) (new1 @ new2) = []))"
    proof
      assume "err \<noteq> None \<and> symbols \<noteq> []"
      with n2(3) obtain pre failed post where pf: "symbols = pre @ failed # post"
        "\<forall>x. x \<notin> set (pre @ [failed]) \<longrightarrow> filter (chart_for x) new2 = []" by blast
      then have "symbols = pre @ failed # post
          \<and> (\<forall>x. x \<notin> set (pre @ [failed]) \<longrightarrow> filter (chart_for x) (new1 @ new2) = [])"
        using n1 by simp
      then show "\<exists>pre failed post. symbols = pre @ failed # post
               \<and> (\<forall>x. x \<notin> set (pre @ [failed]) \<longrightarrow> filter (chart_for x) (new1 @ new2) = [])"
        by - (rule exI [of _ pre], rule exI [of _ failed], rule exI [of _ post], assumption)
    qed
    have a: "wire w' = wire w @ (new1 @ new2)" using n1 n2 by simp
    have b: "\<forall>x. x \<notin> set symbols \<longrightarrow> filter (chart_for x) (new1 @ new2) = []"
      using n1 n2 by simp
    have d: "\<exists>new. wire w' = wire w @ new
       \<and> (\<forall>x. x \<notin> set symbols \<longrightarrow> filter (chart_for x) new = [])
       \<and> (err \<noteq> None \<and> symbols \<noteq> [] \<longrightarrow>
            (\<exists>pre failed post. symbols = pre @ failed # post
               \<and> (\<forall>x. x \<notin> set (pre @ [failed]) \<longrightarrow> filter (chart_for x) new = [])))"
      using a b c by (intro exI [of _ "new1 @ new2"] conjI)
    have e: "\<forall>x. x \<notin> set symbols \<longrightarrow> fetched x = None" using l2 by simp
    show ?thesis
      using p(1,2,4) l1 l4 d e by (intro conjI) simp_all
  qed
  show "cache w' = cache w" "upstream w' = upstream w" "clock w \<le> clock w'"
    "\<forall>x. x \<notin> set symbols \<longrightarrow> fetched x = None"
    "err = None \<longrightarrow> (\<forall>x \<in> set symbols. fetched x \<noteq> None)"
    "\<exists>new. wire w' = wire w @ new
       \<and> (\<forall>x. x \<notin> set symbols \<longrightarrow> filter (chart_for x) new = [])
       \<and> (err \<noteq> None \<and> symbols \<noteq> [] \<longrightarrow>
            (\<exists>pre failed post. symbols = pre @ failed # post
               \<and> (\<forall>x. x \<notin> set (pre @ [failed]) \<longrightarrow> filter (chart_for x) new = [])))"
    by (rule main [THEN conjunct1],
        rule main [THEN conjunct2, THEN conjunct1],
        rule main [THEN conjunct2, THEN conjunct2, THEN conjunct1],
        rule main [THEN conjunct2, THEN conjunct2, THEN conjunct2, THEN conjunct1],
        rule main [THEN conjunct2, THEN conjunct2, THEN conjunct2, THEN conjunct2, THEN conjunct1],
        rule main [THEN conjunct2, THEN conjunct2, THEN conjunct2, THEN conjunct2, THEN conjunct2])
qed


text \<open>The loop and how far it gets.\<close>

lemma fetchBatch_loop_upto:
  "fetchBatch_upto w sess pre = Some (wr, sr) \<Longrightarrow>
     fetchBatch_loop w sess quotes (pre @ rest)
       = fetchBatch_loop wr sr (fst (snd (fetchBatch_loop w sess quotes pre))) rest
     \<and> fst (fetchBatch_loop w sess quotes pre) = wr
     \<and> snd (snd (fetchBatch_loop w sess quotes pre)) = None"
proof (induction pre arbitrary: w sess quotes)
  case Nil
  then show ?case by simp
next
  case (Cons symb pre)
  obtain w1 r where st: "fetchBatch_step w sess symb = (w1, r)"
    by (cases "fetchBatch_step w sess symb")
  show ?case
  proof (cases r)
    case (Inl e)
    with Cons.prems st show ?thesis by simp
  next
    case (Inr qs)
    obtain q sess1 where qs: "qs = (q, sess1)" by (cases qs)
    from Cons.prems st Inr qs have "fetchBatch_upto w1 sess1 pre = Some (wr, sr)" by simp
    note ih = Cons.IH [OF this, of "quotes(symb \<mapsto> q)"]
    have unf: "\<And>xs. fetchBatch_loop w sess quotes (symb # xs)
        = fetchBatch_loop w1 sess1 (quotes(symb \<mapsto> q)) xs"
      using st Inr qs by simp
    show ?thesis unfolding append_Cons unf by (rule ih)
  qed
qed

lemma fetchBatch_loop_ok_iff:
  "snd (snd (fetchBatch_loop w sess quotes symbs)) = None \<longleftrightarrow> fetchBatch_upto w sess symbs \<noteq> None"
proof (induction symbs arbitrary: w sess quotes)
  case Nil
  show ?case by simp
next
  case (Cons symb symbs)
  obtain w1 r where st: "fetchBatch_step w sess symb = (w1, r)"
    by (cases "fetchBatch_step w sess symb")
  show ?case
  proof (cases r)
    case (Inl e)
    with st show ?thesis by simp
  next
    case (Inr qs)
    obtain q sess1 where qs: "qs = (q, sess1)" by (cases qs)
    note ih = Cons.IH [of w1 sess1 "quotes(symb \<mapsto> q)"]
    have unf: "fetchBatch_loop w sess quotes (symb # symbs)
        = fetchBatch_loop w1 sess1 (quotes(symb \<mapsto> q)) symbs"
      "fetchBatch_upto w sess (symb # symbs) = fetchBatch_upto w1 sess1 symbs"
      using st Inr qs by simp_all
    show ?thesis unfolding unf by (rule ih)
  qed
qed

lemma fetchBatch_loop_stops:
  "fetchBatch_loop w sess quotes symbs = (w', quotes', Some e) \<Longrightarrow>
     \<exists>pre failed post wr sr. symbs = pre @ failed # post
        \<and> fetchBatch_upto w sess pre = Some (wr, sr)
        \<and> fetchBatch_step wr sr failed = (w', Inl e)
        \<and> quotes' = fst (snd (fetchBatch_loop w sess quotes pre))"
proof (induction symbs arbitrary: w sess quotes)
  case Nil
  then show ?case by simp
next
  case (Cons symb symbs)
  obtain w1 r where st: "fetchBatch_step w sess symb = (w1, r)"
    by (cases "fetchBatch_step w sess symb")
  show ?case
  proof (cases r)
    case (Inl e1)
    with Cons.prems st have eq: "w' = w1" "quotes' = quotes" "e = e1" by simp_all
    have "symb # symbs = [] @ symb # symbs
        \<and> fetchBatch_upto w sess [] = Some (w, sess)
        \<and> fetchBatch_step w sess symb = (w', Inl e)
        \<and> quotes' = fst (snd (fetchBatch_loop w sess quotes []))"
      using st Inl eq by simp
    then show ?thesis
      by - (rule exI [of _ "[]"], rule exI [of _ symb], rule exI [of _ symbs],
            rule exI [of _ w], rule exI [of _ sess], assumption)
  next
    case (Inr qs)
    obtain q sess1 where qs: "qs = (q, sess1)" by (cases qs)
    from Cons.prems st Inr qs
    have rec: "fetchBatch_loop w1 sess1 (quotes(symb \<mapsto> q)) symbs = (w', quotes', Some e)" by simp
    from Cons.IH [OF rec] obtain pre failed post wr sr where pf:
      "symbs = pre @ failed # post" "fetchBatch_upto w1 sess1 pre = Some (wr, sr)"
      "fetchBatch_step wr sr failed = (w', Inl e)"
      "quotes' = fst (snd (fetchBatch_loop w1 sess1 (quotes(symb \<mapsto> q)) pre))"
      by (elim exE conjE)
    have unf: "fetchBatch_loop w sess quotes (symb # pre)
        = fetchBatch_loop w1 sess1 (quotes(symb \<mapsto> q)) pre"
      "fetchBatch_upto w sess (symb # pre) = fetchBatch_upto w1 sess1 pre"
      using st Inr qs by simp_all
    have "symb # symbs = (symb # pre) @ failed # post
        \<and> fetchBatch_upto w sess (symb # pre) = Some (wr, sr)
        \<and> fetchBatch_step wr sr failed = (w', Inl e)
        \<and> quotes' = fst (snd (fetchBatch_loop w sess quotes (symb # pre)))"
      unfolding unf using pf by (intro conjI) simp_all
    then show ?thesis
      by - (rule exI [of _ "symb # pre"], rule exI [of _ failed], rule exI [of _ post],
            rule exI [of _ wr], rule exI [of _ sr], assumption)
  qed
qed

text \<open>The wire behind a list of rounds that all ended with a quote.\<close>

lemma fetchBatch_upto_wire:
  assumes "fetchBatch_upto w sess pre = Some (wr, sr)"
  shows "\<exists>new. wire wr = wire w @ new \<and> (\<forall>x. x \<notin> set pre \<longrightarrow> filter (chart_for x) new = [])"
proof -
  from fetchBatch_loop_upto [OF assms, of Map.empty "[]"]
  have "fetchBatch_loop w sess Map.empty pre
      = (wr, fst (snd (fetchBatch_loop w sess Map.empty pre)), None)"
    by (simp add: prod_eq_iff)
  from fetchBatch_loop_props [OF this] show ?thesis by blast
qed


text \<open>A batch that has its session and has got behind a list of symbols.\<close>

lemma fetchBatch_reaches:
  assumes "getSession wa = (wb, Inr sessb)" and "fetchBatch_upto wb sessb pre = Some (w, sess)"
  shows "fetchBatch wa (pre @ rest) = fetchBatch_loop w sess (fst (snd (fetchBatch wa pre))) rest"
  using fetchBatch_loop_upto [OF assms(2), of Map.empty rest] assms(1)
  by (simp add: fetchBatch_def)

section \<open>\<open>GetQuotes\<close>\<close>

text \<open>\<open>GetQuotes\<close> is its lookup followed by its fetch, for every request.\<close>

lemma GetQuotes_two_parts:
  "GetQuotes w symbols =
     (let (found, missing) = GetMulti (cache w) (clock w) symbols
      in GetQuotes_fetch w found missing)"
  by (simp add: GetQuotes_def GetMulti_def GetQuotes_fetch_def)

lemma GetQuotes_cases:
  assumes "GetQuotes w symbols = (w', m, err)"
  obtains
    (hit) "filter (\<lambda>s. \<not> fresh (cache w) (clock w) s) symbols = []"
      "w' = w" "m = fst (GetMulti (cache w) (clock w) symbols)" "err = None"
  | (failed) w1 fetched e where
      "filter (\<lambda>s. \<not> fresh (cache w) (clock w) s) symbols \<noteq> []"
      "fetchBatch w (filter (\<lambda>s. \<not> fresh (cache w) (clock w) s) symbols) = (w1, fetched, Some e)"
      "w' = w1" "m = fst (GetMulti (cache w) (clock w) symbols)" "err = Some e"
  | (fetched) w1 fetched where
      "filter (\<lambda>s. \<not> fresh (cache w) (clock w) s) symbols \<noteq> []"
      "fetchBatch w (filter (\<lambda>s. \<not> fresh (cache w) (clock w) s) symbols) = (w1, fetched, None)"
      "w' = w1\<lparr>cache := SetMulti (cache w1) (clock w1) fetched\<rparr>"
      "m = fst (GetMulti (cache w) (clock w) symbols) ++ fetched" "err = None"
proof (cases "filter (\<lambda>s. \<not> fresh (cache w) (clock w) s) symbols = []")
  case True
  with assms have "w' = w" "m = fst (GetMulti (cache w) (clock w) symbols)" "err = None"
    by (auto simp: GetQuotes_def GetQuotes_fetch_def GetMulti_spec split: if_splits)
  with True show ?thesis by (rule hit)
next
  case False
  then have ne: "symbols \<noteq> []" by auto
  obtain w1 fetched e where fb:
    "fetchBatch w (filter (\<lambda>s. \<not> fresh (cache w) (clock w) s) symbols) = (w1, fetched, e)"
    by (metis prod_cases3)
  show ?thesis
  proof (cases e)
    case None
    with assms False ne fb have "w' = w1\<lparr>cache := SetMulti (cache w1) (clock w1) fetched\<rparr>"
      "m = fst (GetMulti (cache w) (clock w) symbols) ++ fetched" "err = None"
      by (simp_all add: GetQuotes_def GetQuotes_fetch_def GetMulti_spec)
    with False fb None show ?thesis by (intro fetched) simp_all
  next
    case (Some e')
    with assms False ne fb have "w' = w1"
      "m = fst (GetMulti (cache w) (clock w) symbols)" "err = Some e'"
      by (simp_all add: GetQuotes_def GetQuotes_fetch_def GetMulti_spec)
    with False fb Some show ?thesis by (intro failed) simp_all
  qed
qed


lemma chart_calls_append:
  "wire w' = wire w @ new \<Longrightarrow> filter (chart_for x) new = [] \<Longrightarrow> chart_calls w' x = chart_calls w x"
  by (simp add: chart_calls_def)

lemma fresh_iff: "fresh pc now s \<longleftrightarrow> (\<exists>item. items pc s = Some item \<and> now - fetchedAt item \<le> ttl pc)"
  by (auto simp: fresh_def split: option.splits)

text \<open>What \<open>GetQuotes\<close> returns, by the error it returns.\<close>

lemma GetQuotes_result:
  assumes "GetQuotes w symbols = (w', m, err)"
  shows "(err = None \<longrightarrow> dom m = set symbols)
       \<and> (\<forall>s \<in> set symbols. fresh (cache w) (clock w) s \<longrightarrow> m s = map_option quote (items (cache w) s))
       \<and> (err \<noteq> None \<longrightarrow>
            m = fst (GetMulti (cache w) (clock w) symbols)
            \<and> (\<exists>pre failed post. snd (GetMulti (cache w) (clock w) symbols) = pre @ failed # post
                 \<and> (\<forall>x. x \<notin> set (pre @ [failed]) \<longrightarrow> chart_calls w' x = chart_calls w x)))"
  using assms
proof (cases rule: GetQuotes_cases)
  case hit
  then have all: "\<forall>s \<in> set symbols. fresh (cache w) (clock w) s"
    by (simp add: filter_empty_conv)
  have "dom m = set symbols"
    using all by (auto simp: hit(3) GetMulti_spec fresh_iff split: if_splits)
  then show ?thesis using hit by (simp add: GetMulti_spec)
next
  case (failed w1 fetched e)
  note p = fetchBatch_props [OF failed(2)]
  from p(6) obtain new where n: "wire w1 = wire w @ new"
    "err \<noteq> None \<and> filter (\<lambda>s. \<not> fresh (cache w) (clock w) s) symbols \<noteq> [] \<longrightarrow>
       (\<exists>pre failed post. filter (\<lambda>s. \<not> fresh (cache w) (clock w) s) symbols = pre @ failed # post
          \<and> (\<forall>x. x \<notin> set (pre @ [failed]) \<longrightarrow> filter (chart_for x) new = []))"
    using failed(5) by auto
  with failed obtain pre fl post where pf:
    "filter (\<lambda>s. \<not> fresh (cache w) (clock w) s) symbols = pre @ fl # post"
    "\<forall>x. x \<notin> set (pre @ [fl]) \<longrightarrow> filter (chart_for x) new = []"
    by auto
  have "snd (GetMulti (cache w) (clock w) symbols) = pre @ fl # post
      \<and> (\<forall>x. x \<notin> set (pre @ [fl]) \<longrightarrow> chart_calls w' x = chart_calls w x)"
    using pf n(1) failed(3) by (simp add: GetMulti_spec chart_calls_def)
  then have "\<exists>pre failed post. snd (GetMulti (cache w) (clock w) symbols) = pre @ failed # post
                 \<and> (\<forall>x. x \<notin> set (pre @ [failed]) \<longrightarrow> chart_calls w' x = chart_calls w x)"
    by - (rule exI [of _ pre], rule exI [of _ fl], rule exI [of _ post], assumption)
  then show ?thesis using failed(4,5) by (simp add: GetMulti_spec)
next
  case (fetched w1 fetched)
  note p = fetchBatch_props [OF fetched(2)]
  have d1: "\<forall>x. x \<in> set symbols \<and> \<not> fresh (cache w) (clock w) x \<longrightarrow> fetched x \<noteq> None"
    using p(5) by simp
  have d2: "\<forall>x. \<not> (x \<in> set symbols \<and> \<not> fresh (cache w) (clock w) x) \<longrightarrow> fetched x = None"
    using p(4) by simp
  have m: "\<And>x. m x = (case fetched x of Some q \<Rightarrow> Some q | None \<Rightarrow>
      if x \<in> set symbols \<and> fresh (cache w) (clock w) x then map_option quote (items (cache w) x) else None)"
    by (simp add: fetched(4) GetMulti_spec map_add_def split: option.splits)
  have "dom m = set symbols"
  proof (rule set_eqI)
    fix x
    show "x \<in> dom m \<longleftrightarrow> x \<in> set symbols"
      using d1 d2 by (cases "fetched x") (auto simp: m dom_def fresh_iff)
  qed
  moreover have "\<forall>s \<in> set symbols. fresh (cache w) (clock w) s \<longrightarrow> m s = map_option quote (items (cache w) s)"
    using d2 by (simp add: m)
  ultimately show ?thesis using fetched(5) by simp
qed

lemma fetchBatch_ok_iff:
  "snd (snd (fetchBatch w symbs)) = None \<longleftrightarrow>
     (\<exists>w0 sess0. getSession w = (w0, Inr sess0) \<and> fetchBatch_upto w0 sess0 symbs \<noteq> None)"
proof -
  obtain w0 rs where g: "getSession w = (w0, rs)" by (cases "getSession w")
  show ?thesis
  proof (cases rs)
    case (Inl e)
    with g show ?thesis by (simp add: fetchBatch_def)
  next
    case (Inr sess0)
    with g show ?thesis by (simp add: fetchBatch_def fetchBatch_loop_ok_iff)
  qed
qed

lemma fetchBatch_stops:
  assumes "fetchBatch w symbs = (w', fetched, Some e)"
  shows "(\<exists>e0. getSession w = (w', Inl e0) \<and> e = ''get yahoo session: '' @ e0
            \<and> (\<forall>x. chart_calls w' x = chart_calls w x))
       \<or> (\<exists>pre failed post w0 sess0 wr sr.
            symbs = pre @ failed # post
            \<and> getSession w = (w0, Inr sess0)
            \<and> fetchBatch_upto w0 sess0 pre = Some (wr, sr)
            \<and> fetchBatch_step wr sr failed = (w', Inl e)
            \<and> (\<forall>x. x \<notin> set (pre @ [failed]) \<longrightarrow> chart_calls w' x = chart_calls w x))"
proof -
  obtain w0 rs where g: "getSession w = (w0, rs)" by (cases "getSession w")
  from getSession_props(3) [OF g] obtain n0 where n0: "wire w0 = wire w @ n0"
    "\<forall>x. filter (chart_for x) n0 = []" by blast
  show ?thesis
  proof (cases rs)
    case (Inl e0)
    with g assms have "w' = w0" "e = ''get yahoo session: '' @ e0" by (simp_all add: fetchBatch_def)
    with g Inl n0 have "getSession w = (w', Inl e0) \<and> e = ''get yahoo session: '' @ e0
            \<and> (\<forall>x. chart_calls w' x = chart_calls w x)"
      by (simp add: chart_calls_def)
    then show ?thesis by blast
  next
    case (Inr sess0)
    with g assms have l: "fetchBatch_loop w0 sess0 Map.empty symbs = (w', fetched, Some e)"
      by (simp add: fetchBatch_def)
    from fetchBatch_loop_stops [OF l] obtain pre failed post wr sr where pf:
      "symbs = pre @ failed # post" "fetchBatch_upto w0 sess0 pre = Some (wr, sr)"
      "fetchBatch_step wr sr failed = (w', Inl e)"
      by (elim exE conjE)
    from fetchBatch_upto_wire [OF pf(2)] obtain n1 where n1: "wire wr = wire w0 @ n1"
      "\<forall>x. x \<notin> set pre \<longrightarrow> filter (chart_for x) n1 = []" by blast
    from fetchBatch_step_props(4) [OF pf(3)] obtain n2 where n2: "wire w' = wire wr @ n2"
      "\<forall>x. x \<noteq> failed \<longrightarrow> filter (chart_for x) n2 = []" by blast
    have cc: "\<forall>x. x \<notin> set (pre @ [failed]) \<longrightarrow> chart_calls w' x = chart_calls w x"
      using n0 n1 n2 by (simp add: chart_calls_def)
    have "symbs = pre @ failed # post
            \<and> getSession w = (w0, Inr sess0)
            \<and> fetchBatch_upto w0 sess0 pre = Some (wr, sr)
            \<and> fetchBatch_step wr sr failed = (w', Inl e)
            \<and> (\<forall>x. x \<notin> set (pre @ [failed]) \<longrightarrow> chart_calls w' x = chart_calls w x)"
      using pf g Inr cc by simp
    then have "\<exists>pre failed post w0 sess0 wr sr.
            symbs = pre @ failed # post
            \<and> getSession w = (w0, Inr sess0)
            \<and> fetchBatch_upto w0 sess0 pre = Some (wr, sr)
            \<and> fetchBatch_step wr sr failed = (w', Inl e)
            \<and> (\<forall>x. x \<notin> set (pre @ [failed]) \<longrightarrow> chart_calls w' x = chart_calls w x)"
      by - (rule exI [of _ pre], rule exI [of _ failed], rule exI [of _ post],
            rule exI [of _ w0], rule exI [of _ sess0], rule exI [of _ wr], rule exI [of _ sr],
            assumption)
    then show ?thesis by (rule disjI2)
  qed
qed

text \<open>
  Claim C2, as amended. \<open>GetQuotes\<close> returns a nil error exactly when no requested symbol is
  stale or missing, or the session is acquired and every round of the batch over the stale
  or missing symbols ends with a quote; the result then has a quote for every requested
  symbol. A fresh cache hit is always part of the result. With a non-nil error the result is
  the fresh cache hits alone, and either the session could not be acquired, the error is
  that of the session and no chart request was sent; or the stale or missing symbols split
  into those before the failure, whose rounds all ended with a quote, the symbol whose round
  failed, and the rest: the error is the error of that round, the state returned is the
  state that round left, and no chart request went out for a symbol that is only in the
  rest. Conversely, the first round that fails decides the call: its error and its state are
  what the call returns; and so does a session that cannot be acquired when a symbol is
  stale or missing.
\<close>

theorem GetQuotes_all_or_cached:
  assumes "GetQuotes w symbols = (w', m, err)"
  shows "(err = None \<longleftrightarrow>
            snd (GetMulti (cache w) (clock w) symbols) = []
            \<or> (\<exists>w0 sess0. getSession w = (w0, Inr sess0)
                  \<and> fetchBatch_upto w0 sess0 (snd (GetMulti (cache w) (clock w) symbols)) \<noteq> None))
       \<and> (err = None \<longrightarrow> dom m = set symbols)
       \<and> (\<forall>s \<in> set symbols. fresh (cache w) (clock w) s \<longrightarrow> m s = map_option quote (items (cache w) s))
       \<and> (err \<noteq> None \<longrightarrow>
            m = fst (GetMulti (cache w) (clock w) symbols)
            \<and> ((\<exists>e0. getSession w = (w', Inl e0) \<and> err = Some (''get yahoo session: '' @ e0)
                    \<and> (\<forall>x. chart_calls w' x = chart_calls w x))
               \<or> (\<exists>pre failed post w0 sess0 wr sr e.
                    snd (GetMulti (cache w) (clock w) symbols) = pre @ failed # post
                    \<and> getSession w = (w0, Inr sess0)
                    \<and> fetchBatch_upto w0 sess0 pre = Some (wr, sr)
                    \<and> fetchBatch_step wr sr failed = (w', Inl e)
                    \<and> err = Some e
                    \<and> (\<forall>x. x \<notin> set (pre @ [failed]) \<longrightarrow> chart_calls w' x = chart_calls w x))))
       \<and> (\<forall>pre failed post w0 sess0 wr sr wx e.
            snd (GetMulti (cache w) (clock w) symbols) = pre @ failed # post
            \<and> getSession w = (w0, Inr sess0)
            \<and> fetchBatch_upto w0 sess0 pre = Some (wr, sr)
            \<and> fetchBatch_step wr sr failed = (wx, Inl e) \<longrightarrow>
            w' = wx \<and> err = Some e)
       \<and> (\<forall>w0 e0. snd (GetMulti (cache w) (clock w) symbols) \<noteq> []
            \<and> getSession w = (w0, Inl e0) \<longrightarrow>
            w' = w0 \<and> err = Some (''get yahoo session: '' @ e0))"
proof -
  let ?missing = "snd (GetMulti (cache w) (clock w) symbols)"
  have ms: "?missing = filter (\<lambda>s. \<not> fresh (cache w) (clock w) s) symbols"
    by (simp add: GetMulti_spec)
  note res = GetQuotes_result [OF assms]
  have b: "err = None \<longrightarrow> dom m = set symbols" using res by blast
  have c: "\<forall>s \<in> set symbols. fresh (cache w) (clock w) s \<longrightarrow> m s = map_option quote (items (cache w) s)"
    using res by blast
  have d1: "err \<noteq> None \<longrightarrow> m = fst (GetMulti (cache w) (clock w) symbols)" using res by blast
  from assms have ad: "(err = None \<longleftrightarrow>
            ?missing = []
            \<or> (\<exists>w0 sess0. getSession w = (w0, Inr sess0) \<and> fetchBatch_upto w0 sess0 ?missing \<noteq> None))
       \<and> (err \<noteq> None \<longrightarrow>
             ((\<exists>e0. getSession w = (w', Inl e0) \<and> err = Some (''get yahoo session: '' @ e0)
                    \<and> (\<forall>x. chart_calls w' x = chart_calls w x))
               \<or> (\<exists>pre failed post w0 sess0 wr sr e.
                    ?missing = pre @ failed # post
                    \<and> getSession w = (w0, Inr sess0)
                    \<and> fetchBatch_upto w0 sess0 pre = Some (wr, sr)
                    \<and> fetchBatch_step wr sr failed = (w', Inl e)
                    \<and> err = Some e
                    \<and> (\<forall>x. x \<notin> set (pre @ [failed]) \<longrightarrow> chart_calls w' x = chart_calls w x))))"
  proof (cases rule: GetQuotes_cases)
    case hit
    then show ?thesis by (simp add: ms)
  next
    case (failed w1 fetched e)
    have ne: "?missing \<noteq> []" using failed(1) by (simp add: ms)
    have fb: "fetchBatch w ?missing = (w', fetched, Some e)" using failed(2,3) by (simp add: ms)
    have no: "\<not> (\<exists>w0 sess0. getSession w = (w0, Inr sess0) \<and> fetchBatch_upto w0 sess0 ?missing \<noteq> None)"
      using fetchBatch_ok_iff [of w ?missing] fb by simp
    from fetchBatch_stops [OF fb]
    have "(\<exists>e0. getSession w = (w', Inl e0) \<and> err = Some (''get yahoo session: '' @ e0)
                    \<and> (\<forall>x. chart_calls w' x = chart_calls w x))
               \<or> (\<exists>pre failed post w0 sess0 wr sr e.
                    ?missing = pre @ failed # post
                    \<and> getSession w = (w0, Inr sess0)
                    \<and> fetchBatch_upto w0 sess0 pre = Some (wr, sr)
                    \<and> fetchBatch_step wr sr failed = (w', Inl e)
                    \<and> err = Some e
                    \<and> (\<forall>x. x \<notin> set (pre @ [failed]) \<longrightarrow> chart_calls w' x = chart_calls w x))"
    proof (elim disjE exE conjE)
      fix e0 assume "getSession w = (w', Inl e0)" "e = ''get yahoo session: '' @ e0"
        "\<forall>x. chart_calls w' x = chart_calls w x"
      then have "getSession w = (w', Inl e0) \<and> err = Some (''get yahoo session: '' @ e0)
                    \<and> (\<forall>x. chart_calls w' x = chart_calls w x)"
        using failed(5) by simp
      then show ?thesis by blast
    next
      fix pre fl post w0 sess0 wr sr
      assume "?missing = pre @ fl # post" "getSession w = (w0, Inr sess0)"
        "fetchBatch_upto w0 sess0 pre = Some (wr, sr)" "fetchBatch_step wr sr fl = (w', Inl e)"
        "\<forall>x. x \<notin> set (pre @ [fl]) \<longrightarrow> chart_calls w' x = chart_calls w x"
      then have "?missing = pre @ fl # post
                    \<and> getSession w = (w0, Inr sess0)
                    \<and> fetchBatch_upto w0 sess0 pre = Some (wr, sr)
                    \<and> fetchBatch_step wr sr fl = (w', Inl e)
                    \<and> err = Some e
                    \<and> (\<forall>x. x \<notin> set (pre @ [fl]) \<longrightarrow> chart_calls w' x = chart_calls w x)"
        using failed(5) by simp
      then have "\<exists>pre failed post w0 sess0 wr sr e.
                    ?missing = pre @ failed # post
                    \<and> getSession w = (w0, Inr sess0)
                    \<and> fetchBatch_upto w0 sess0 pre = Some (wr, sr)
                    \<and> fetchBatch_step wr sr failed = (w', Inl e)
                    \<and> err = Some e
                    \<and> (\<forall>x. x \<notin> set (pre @ [failed]) \<longrightarrow> chart_calls w' x = chart_calls w x)"
        by - (rule exI [of _ pre], rule exI [of _ fl], rule exI [of _ post],
            rule exI [of _ w0], rule exI [of _ sess0], rule exI [of _ wr], rule exI [of _ sr],
            rule exI [of _ e], assumption)
      then show ?thesis by (rule disjI2)
    qed
    then show ?thesis using ne no failed(5) by simp
  next
    case (fetched w1 fetched)
    have fb: "fetchBatch w ?missing = (w1, fetched, None)" using fetched(2) by (simp add: ms)
    have "\<exists>w0 sess0. getSession w = (w0, Inr sess0) \<and> fetchBatch_upto w0 sess0 ?missing \<noteq> None"
      using fetchBatch_ok_iff [of w ?missing] fb by simp
    then show ?thesis using fetched(5) by simp
  qed
  have gq: "GetQuotes w symbols = GetQuotes_fetch w (fst (GetMulti (cache w) (clock w) symbols)) ?missing"
    by (simp add: GetQuotes_two_parts split: prod.splits)
  have e: "\<forall>pre failed post w0 sess0 wr sr wx e.
            ?missing = pre @ failed # post
            \<and> getSession w = (w0, Inr sess0)
            \<and> fetchBatch_upto w0 sess0 pre = Some (wr, sr)
            \<and> fetchBatch_step wr sr failed = (wx, Inl e) \<longrightarrow>
            w' = wx \<and> err = Some e"
  proof (intro allI impI, elim conjE)
    fix pre failed post w0 sess0 wr sr wx e
    assume h: "?missing = pre @ failed # post" "getSession w = (w0, Inr sess0)"
      "fetchBatch_upto w0 sess0 pre = Some (wr, sr)" "fetchBatch_step wr sr failed = (wx, Inl e)"
    have "fetchBatch w (pre @ failed # post) = (wx, fst (snd (fetchBatch w pre)), Some e)"
      unfolding fetchBatch_reaches [OF h(2,3)] using h(4) by simp
    then have "GetQuotes w symbols = (wx, fst (GetMulti (cache w) (clock w) symbols), Some e)"
      unfolding gq h(1) by (simp add: GetQuotes_fetch_def)
    with assms show "w' = wx \<and> err = Some e" by simp
  qed
  have f: "\<forall>w0 e0. ?missing \<noteq> [] \<and> getSession w = (w0, Inl e0) \<longrightarrow>
            w' = w0 \<and> err = Some (''get yahoo session: '' @ e0)"
  proof (intro allI impI, elim conjE)
    fix w0 e0
    assume h: "?missing \<noteq> []" "getSession w = (w0, Inl e0)"
    have "fetchBatch w ?missing = (w0, Map.empty, Some (''get yahoo session: '' @ e0))"
      using h(2) by (simp add: fetchBatch_def)
    then have "GetQuotes w symbols
        = (w0, fst (GetMulti (cache w) (clock w) symbols), Some (''get yahoo session: '' @ e0))"
      unfolding gq using h(1) by (simp add: GetQuotes_fetch_def)
    with assms show "w' = w0 \<and> err = Some (''get yahoo session: '' @ e0)" by simp
  qed
  note a = ad [THEN conjunct1]
  have d: "err \<noteq> None \<longrightarrow>
            m = fst (GetMulti (cache w) (clock w) symbols)
            \<and> ((\<exists>e0. getSession w = (w', Inl e0) \<and> err = Some (''get yahoo session: '' @ e0)
                    \<and> (\<forall>x. chart_calls w' x = chart_calls w x))
               \<or> (\<exists>pre failed post w0 sess0 wr sr e.
                    ?missing = pre @ failed # post
                    \<and> getSession w = (w0, Inr sess0)
                    \<and> fetchBatch_upto w0 sess0 pre = Some (wr, sr)
                    \<and> fetchBatch_step wr sr failed = (w', Inl e)
                    \<and> err = Some e
                    \<and> (\<forall>x. x \<notin> set (pre @ [failed]) \<longrightarrow> chart_calls w' x = chart_calls w x)))"
    using ad [THEN conjunct2] d1 by (intro impI conjI) (erule (1) mp)+
  from a b c d e f show ?thesis by (intro conjI)
qed


text \<open>
  Claim C7. An entry for a requested symbol that was written at \<open>T\<close> is served by a call
  issued before \<open>T + ttl\<close>: the result holds its quote, the call sends no chart request for
  the symbol and leaves the entry in place. A symbol without a fresh entry, stale or absent,
  reads as not cached in \<open>Get\<close> and \<open>GetMulti\<close>, which change nothing. A call leaves every
  entry as it was, except that it overwrites the entry of a symbol it had to fetch, and only
  when the fetch succeeded; the TTL never changes.
\<close>

theorem GetQuotes_fresh_entry_served:
  assumes "GetQuotes w symbols = (w', m, err)"
  shows "(\<forall>x q T. items (cache w) x = Some \<lparr>quote = q, fetchedAt = T\<rparr>
            \<and> clock w < T + ttl (cache w) \<and> x \<in> set symbols \<longrightarrow>
          m x = Some q \<and> chart_calls w' x = chart_calls w x
          \<and> items (cache w') x = items (cache w) x)
       \<and> (\<forall>x. \<not> fresh (cache w) (clock w) x \<longrightarrow>
            Get (cache w) (clock w) x = (Quote_zero, False)
            \<and> fst (GetMulti (cache w) (clock w) symbols) x = None
            \<and> (x \<in> set symbols \<longrightarrow> x \<in> set (snd (GetMulti (cache w) (clock w) symbols))))
       \<and> (\<forall>x. items (cache w') x = items (cache w) x
            \<or> (x \<in> set symbols \<and> \<not> fresh (cache w) (clock w) x \<and> err = None
                \<and> (\<exists>q. m x = Some q \<and> items (cache w') x = Some \<lparr>quote = q, fetchedAt = clock w'\<rparr>)))
       \<and> ttl (cache w') = ttl (cache w)"
proof -
  have reads: "\<forall>x. \<not> fresh (cache w) (clock w) x \<longrightarrow>
            Get (cache w) (clock w) x = (Quote_zero, False)
            \<and> fst (GetMulti (cache w) (clock w) symbols) x = None
            \<and> (x \<in> set symbols \<longrightarrow> x \<in> set (snd (GetMulti (cache w) (clock w) symbols)))"
    by (auto simp: Get_def GetMulti_spec fresh_def split: option.splits)
  have fr: "\<And>x q T. items (cache w) x = Some \<lparr>quote = q, fetchedAt = T\<rparr> \<Longrightarrow>
      clock w < T + ttl (cache w) \<Longrightarrow> fresh (cache w) (clock w) x"
    by (simp add: fresh_def)
  from assms have "(\<forall>x. x \<in> set symbols \<and> fresh (cache w) (clock w) x \<longrightarrow>
          m x = map_option quote (items (cache w) x) \<and> chart_calls w' x = chart_calls w x
          \<and> items (cache w') x = items (cache w) x)
       \<and> (\<forall>x. items (cache w') x = items (cache w) x
            \<or> (x \<in> set symbols \<and> \<not> fresh (cache w) (clock w) x \<and> err = None
                \<and> (\<exists>q. m x = Some q \<and> items (cache w') x = Some \<lparr>quote = q, fetchedAt = clock w'\<rparr>)))
       \<and> ttl (cache w') = ttl (cache w)"
  proof (cases rule: GetQuotes_cases)
    case hit
    then show ?thesis by (simp add: GetMulti_spec)
  next
    case (failed w1 fetched e)
    note p = fetchBatch_props [OF failed(2)]
    from p(6) obtain new where n: "wire w1 = wire w @ new"
      "\<forall>x. x \<notin> set (filter (\<lambda>s. \<not> fresh (cache w) (clock w) s) symbols) \<longrightarrow> filter (chart_for x) new = []"
      by blast
    have "\<forall>x. x \<in> set symbols \<and> fresh (cache w) (clock w) x \<longrightarrow> chart_calls w' x = chart_calls w x"
      using n failed(3) by (simp add: chart_calls_def)
    then show ?thesis using failed(3,4) p(1) by (simp add: GetMulti_spec)
  next
    case (fetched w1 fetched)
    note p = fetchBatch_props [OF fetched(2)]
    from p(6) obtain new where n: "wire w1 = wire w @ new"
      "\<forall>x. x \<notin> set (filter (\<lambda>s. \<not> fresh (cache w) (clock w) s) symbols) \<longrightarrow> filter (chart_for x) new = []"
      by blast
    have d1: "\<forall>x. x \<in> set symbols \<and> \<not> fresh (cache w) (clock w) x \<longrightarrow> fetched x \<noteq> None"
      using p(5) by simp
    have d2: "\<forall>x. \<not> (x \<in> set symbols \<and> \<not> fresh (cache w) (clock w) x) \<longrightarrow> fetched x = None"
      using p(4) by simp
    have a: "\<forall>x. x \<in> set symbols \<and> fresh (cache w) (clock w) x \<longrightarrow>
          m x = map_option quote (items (cache w) x) \<and> chart_calls w' x = chart_calls w x
          \<and> items (cache w') x = items (cache w) x"
      using n d2 p(1) by (simp add: fetched(3,4) chart_calls_def GetMulti_spec map_add_def SetMulti_def)
    have b: "\<forall>x. items (cache w') x = items (cache w) x
            \<or> (x \<in> set symbols \<and> \<not> fresh (cache w) (clock w) x \<and> err = None
                \<and> (\<exists>q. m x = Some q \<and> items (cache w') x = Some \<lparr>quote = q, fetchedAt = clock w'\<rparr>))"
    proof
      fix x
      show "items (cache w') x = items (cache w) x
            \<or> (x \<in> set symbols \<and> \<not> fresh (cache w) (clock w) x \<and> err = None
                \<and> (\<exists>q. m x = Some q \<and> items (cache w') x = Some \<lparr>quote = q, fetchedAt = clock w'\<rparr>))"
        using d2 p(1)
        by (cases "fetched x") (auto simp: fetched(3,4,5) SetMulti_def map_add_def)
    qed
    have c: "ttl (cache w') = ttl (cache w)" using p(1) by (simp add: fetched(3) SetMulti_def)
    from a b c show ?thesis by blast
  qed
  with reads fr show ?thesis by (simp add: fresh_def) 
qed

subsection \<open>Sample runs of \<open>GetQuotes\<close>\<close>


text \<open>
  The claim as stated fails when the second of three uncached symbols fails: AAPL was fetched
  with success, yet the result omits it; the error is not nil although a symbol succeeded;
  and TSLA behind the failure was never asked for.
\<close>

theorem GetQuotes_partial_counterexample:
  "fst (snd (fetchBatch middle_fails [''AAPL'', ''MSFT'', ''TSLA''])) ''AAPL''
     = Some \<lparr>Symbol = ''AAPL'', Price = 150, Currency = ''USD''\<rparr>
   \<and> fst (snd (GetQuotes middle_fails [''AAPL'', ''MSFT'', ''TSLA''])) ''AAPL'' = None
   \<and> snd (snd (GetQuotes middle_fails [''AAPL'', ''MSFT'', ''TSLA'']))
       = Some ''fetch MSFT: HTTP 500 for MSFT''
   \<and> chart_calls (fst (GetQuotes middle_fails [''AAPL'', ''MSFT'', ''TSLA''])) ''TSLA'' = []"
  by (simp add: middle_fails_def fixture_defs run_defs chart_calls_def)

text \<open>
  Both directions at sample runs. Two uncached symbols that answer: the session is acquired
  and both rounds end with a quote, so the error is nil and each symbol has a quote. A
  second symbol whose round fails behind a first whose round ends with a quote: the call
  returns the error of that round and the cache hits alone, here none. A fresh entry is part
  of the result.
\<close>

theorem GetQuotes_all_or_cached_witness:
  "snd (getSession both_answer)
     = Inr \<lparr>cookie = ''A3=d=AQAB'', crumb = ''mJ8Zx0'', expiresAt = 40000000 + sessionTTL\<rparr>
   \<and> fetchBatch_upto (fst (getSession both_answer))
         \<lparr>cookie = ''A3=d=AQAB'', crumb = ''mJ8Zx0'', expiresAt = 40000000 + sessionTTL\<rparr>
         (snd (GetMulti (cache both_answer) (clock both_answer) [''AAPL'', ''MSFT''])) \<noteq> None
   \<and> snd (snd (GetQuotes both_answer [''AAPL'', ''MSFT''])) = None
   \<and> dom (fst (snd (GetQuotes both_answer [''AAPL'', ''MSFT'']))) = set [''AAPL'', ''MSFT'']
   \<and> snd (snd (GetQuotes second_fails [''AAPL'', ''MSFT''])) = Some ''fetch MSFT: HTTP 500 for MSFT''
   \<and> fst (snd (GetQuotes second_fails [''AAPL'', ''MSFT'']))
       = fst (GetMulti (cache second_fails) (clock second_fails) [''AAPL'', ''MSFT''])
   \<and> fst (snd (GetQuotes warm_client [''AAPL''])) ''AAPL''
       = Some \<lparr>Symbol = ''AAPL'', Price = 150, Currency = ''USD''\<rparr>"
proof -
  let ?s0 = "\<lparr>cookie = ''A3=d=AQAB'', crumb = ''mJ8Zx0'', expiresAt = 40000000 + sessionTTL\<rparr>"
  let ?missing = "snd (GetMulti (cache both_answer) (clock both_answer) [''AAPL'', ''MSFT''])"
  have fr: "fresh (cache warm_client) (clock warm_client) ''AAPL''"
    "map_option quote (items (cache warm_client) ''AAPL'')
       = Some \<lparr>Symbol = ''AAPL'', Price = 150, Currency = ''USD''\<rparr>"
    by (simp_all add: warm_client_def demo_cache_def fixture_defs fresh_def)
  have hit: "fst (snd (GetQuotes warm_client [''AAPL''])) ''AAPL''
       = Some \<lparr>Symbol = ''AAPL'', Price = 150, Currency = ''USD''\<rparr>"
    using GetQuotes_all_or_cached [OF triple [of "GetQuotes warm_client [''AAPL'']"]] fr
    by simp
  have g: "snd (getSession both_answer) = Inr ?s0"
    by (simp add: both_answer_def fixture_defs run_defs)
  then have g': "getSession both_answer = (fst (getSession both_answer), Inr ?s0)"
    by (simp add: prod_eq_iff)
  have up: "fetchBatch_upto (fst (getSession both_answer)) ?s0 ?missing \<noteq> None"
    by (simp add: both_answer_def fixture_defs run_defs)
  from g' up have "\<exists>w0 sess0. getSession both_answer = (w0, Inr sess0)
      \<and> fetchBatch_upto w0 sess0 ?missing \<noteq> None"
    by blast
  with GetQuotes_all_or_cached [OF triple [of "GetQuotes both_answer [''AAPL'', ''MSFT'']"]]
  have ok: "snd (snd (GetQuotes both_answer [''AAPL'', ''MSFT''])) = None"
    "dom (fst (snd (GetQuotes both_answer [''AAPL'', ''MSFT'']))) = set [''AAPL'', ''MSFT'']"
    by blast+
  let ?v0 = "fst (getSession second_fails)"
  let ?reached = "the (fetchBatch_upto ?v0 ?s0 [''AAPL''])"
  have split: "snd (GetMulti (cache second_fails) (clock second_fails) [''AAPL'', ''MSFT''])
      = [''AAPL''] @ ''MSFT'' # []"
    by (simp add: second_fails_def fixture_defs run_defs)
  have "snd (getSession second_fails) = Inr ?s0"
    by (simp add: second_fails_def fixture_defs run_defs)
  then have h: "getSession second_fails = (?v0, Inr ?s0)"
    by (simp add: prod_eq_iff)
  have "fetchBatch_upto ?v0 ?s0 [''AAPL''] \<noteq> None"
    by (simp add: second_fails_def fixture_defs run_defs)
  then have reach: "fetchBatch_upto ?v0 ?s0 [''AAPL''] = Some (fst ?reached, snd ?reached)"
    by auto
  have "snd (fetchBatch_step (fst ?reached) (snd ?reached) ''MSFT'')
      = Inl ''fetch MSFT: HTTP 500 for MSFT''"
    by (simp add: second_fails_def fixture_defs run_defs)
  then have round: "fetchBatch_step (fst ?reached) (snd ?reached) ''MSFT''
      = (fst (fetchBatch_step (fst ?reached) (snd ?reached) ''MSFT''),
         Inl ''fetch MSFT: HTTP 500 for MSFT'')"
    by (simp add: prod_eq_iff)
  from split h reach round
  have "snd (GetMulti (cache second_fails) (clock second_fails) [''AAPL'', ''MSFT''])
          = [''AAPL''] @ ''MSFT'' # []
      \<and> getSession second_fails = (?v0, Inr ?s0)
      \<and> fetchBatch_upto ?v0 ?s0 [''AAPL''] = Some (fst ?reached, snd ?reached)
      \<and> fetchBatch_step (fst ?reached) (snd ?reached) ''MSFT''
          = (fst (fetchBatch_step (fst ?reached) (snd ?reached) ''MSFT''),
             Inl ''fetch MSFT: HTTP 500 for MSFT'')"
    by (intro conjI)
  from GetQuotes_all_or_cached [OF triple [of "GetQuotes second_fails [''AAPL'', ''MSFT'']"],
      THEN conjunct2, THEN conjunct2, THEN conjunct2, THEN conjunct2, THEN conjunct1,
      rule_format, OF this]
  have bad: "snd (snd (GetQuotes second_fails [''AAPL'', ''MSFT''])) = Some ''fetch MSFT: HTTP 500 for MSFT''"
    by simp
  with GetQuotes_all_or_cached [OF triple [of "GetQuotes second_fails [''AAPL'', ''MSFT'']"]]
  have cached: "fst (snd (GetQuotes second_fails [''AAPL'', ''MSFT'']))
       = fst (GetMulti (cache second_fails) (clock second_fails) [''AAPL'', ''MSFT''])"
    by simp
  from g up ok bad cached hit show ?thesis by (intro conjI)
qed



text \<open>
  Five minutes after the write, with a TTL of fifteen, AAPL is served from the cache. Sixteen
  minutes after it the entry is stale, reads as not cached and is overwritten by the fetch.
\<close>

theorem GetQuotes_fresh_entry_served_witness:
  "items (cache warm_client) ''AAPL''
     = Some \<lparr>quote = \<lparr>Symbol = ''AAPL'', Price = 150, Currency = ''USD''\<rparr>, fetchedAt = 0\<rparr>
   \<and> clock warm_client < 0 + ttl (cache warm_client)
   \<and> fst (snd (GetQuotes warm_client [''AAPL'', ''MSFT'']))  ''AAPL''
       = Some \<lparr>Symbol = ''AAPL'', Price = 150, Currency = ''USD''\<rparr>
   \<and> chart_calls (fst (GetQuotes warm_client [''AAPL'', ''MSFT''])) ''AAPL'' = chart_calls warm_client ''AAPL''
   \<and> items (cache (fst (GetQuotes warm_client [''AAPL'', ''MSFT'']))) ''AAPL'' = items (cache warm_client) ''AAPL''
   \<and> \<not> fresh (cache stale_client) (clock stale_client) ''AAPL''
   \<and> Get (cache stale_client) (clock stale_client) ''AAPL'' = (Quote_zero, False)
   \<and> items (cache (fst (GetQuotes stale_client [''AAPL'']))) ''AAPL''
       = Some \<lparr>quote = \<lparr>Symbol = ''AAPL'', Price = 152, Currency = ''USD''\<rparr>,
               fetchedAt = 16 * Minute + 60000000\<rparr>"
proof -
  have st: "\<not> fresh (cache stale_client) (clock stale_client) ''AAPL''"
    by (simp add: stale_client_def demo_cache_def fixture_defs fresh_def)
  note stale = GetQuotes_fresh_entry_served [OF triple [of "GetQuotes stale_client [''AAPL'']"],
      THEN conjunct2, THEN conjunct1, rule_format, OF st, THEN conjunct1]
  have written: "items (cache (fst (GetQuotes stale_client [''AAPL'']))) ''AAPL''
       = Some \<lparr>quote = \<lparr>Symbol = ''AAPL'', Price = 152, Currency = ''USD''\<rparr>,
               fetchedAt = 16 * Minute + 60000000\<rparr>"
    by (simp add: stale_client_def demo_cache_def fixture_defs run_defs)
  have h: "items (cache warm_client) ''AAPL''
     = Some \<lparr>quote = \<lparr>Symbol = ''AAPL'', Price = 150, Currency = ''USD''\<rparr>, fetchedAt = 0\<rparr>"
    "clock warm_client < 0 + ttl (cache warm_client)"
    by (simp_all add: warm_client_def demo_cache_def fixture_defs)
  have "items (cache warm_client) ''AAPL''
       = Some \<lparr>quote = \<lparr>Symbol = ''AAPL'', Price = 150, Currency = ''USD''\<rparr>, fetchedAt = 0\<rparr>
     \<and> clock warm_client < 0 + ttl (cache warm_client) \<and> ''AAPL'' \<in> set [''AAPL'', ''MSFT'']"
    using h by simp
  from GetQuotes_fresh_entry_served [OF triple [of "GetQuotes warm_client [''AAPL'', ''MSFT'']"],
      THEN conjunct1, rule_format, OF this] h st stale written
  show ?thesis by simp
qed

section \<open>Authorization failures\<close>

lemma fetchNewSession_success:
  assumes "fetchNewSession w = (w', Inr s)"
  shows "\<exists>t. wire w' = wire w @ [(clock w, ConsentGet), (t, CrumbGet (cookie s))]"
  using assms
  by (auto simp: fetchNewSession_def Do_def Let_def
      split: prod.splits response.splits sum.splits if_splits)

lemma isAuthError_auth: "isAuthError (''auth error: HTTP '' @ rest)"
  by (simp add: isAuthError_def HasPrefix_def)

lemma fetchOne_refused:
  assumes "upstream w (length (wire w)) = (Response resp, d)"
    and "StatusCode resp = 401 \<or> StatusCode resp = 403"
  shows "snd (fetchOne w symb sess) = Inl (''auth error: HTTP '' @ digits (StatusCode resp))"
  using assms
  by (auto simp: fetchOne_def Do_def StatusUnauthorized_def StatusForbidden_def)

text \<open>A round whose first request is refused, spelled out.\<close>

lemma fetchBatch_step_refused:
  assumes "upstream w (length (wire w)) = (Response resp, d)"
    and "StatusCode resp = 401 \<or> StatusCode resp = 403"
  shows "fetchBatch_step w sess symb =
      (case getSession (invalidateSession (fst (fetchOne w symb sess))) of
         (w2, Inl err2) \<Rightarrow> (w2, Inl (''refresh yahoo session: '' @ err2))
       | (w2, Inr sess2) \<Rightarrow>
           (case fetchOne w2 symb sess2 of
              (w3, Inl err3) \<Rightarrow> (w3, Inl (''fetch '' @ symb @ '': '' @ err3))
            | (w3, Inr q) \<Rightarrow> (w3, Inr (q, sess2))))"
proof -
  obtain w1 r1 where f1: "fetchOne w symb sess = (w1, r1)" by (cases "fetchOne w symb sess")
  have "r1 = Inl (''auth error: HTTP '' @ digits (StatusCode resp))"
    using fetchOne_refused [OF assms, of symb sess] f1 by simp
  then obtain e1 where e1: "r1 = Inl e1" "isAuthError e1"
    using isAuthError_auth by blast
  then show ?thesis by (simp add: fetchBatch_step_def f1 split: prod.splits sum.splits)
qed

text \<open>
  Claim C5, as amended. The batch has acquired its session and reached a symbol behind
  rounds that all ended with a quote, and the chart request for the symbol is answered
  with status 401 or 403. The session is then invalidated and acquired anew, once. If that
  fails, \<open>fetchBatch\<close> returns at once with the quotes so far and the error of the refresh;
  the refused request stays the only new chart request for the symbol, so it is not retried.
  If it succeeds, the new session is the cached one, the wire shows the refused request
  followed by one consent and one crumb request, and then exactly one more chart request
  for the symbol, carrying the crumb and cookie of the new session. If that request gives
  a quote the loop goes on behind the symbol with the new session; if it fails,
  \<open>fetchBatch\<close> returns in the state that request left, with the quotes so far and the
  error \<open>fetch\<close>, the symbol and the failure, which for a second refusal is
  \<open>auth error: HTTP\<close> with the status: no symbol behind it is asked for.
\<close>

theorem fetchBatch_auth_retry:
  assumes start: "getSession wa = (wb, Inr sessb)"
    and reach: "fetchBatch_upto wb sessb pre = Some (w, sess)"
    and quotes: "quotes = fst (snd (fetchBatch wa pre))"
    and first: "upstream w (length (wire w)) = (Response resp, d)"
    and refused: "StatusCode resp = 401 \<or> StatusCode resp = 403"
    and w1: "w1 = fst (fetchOne w symb sess)"
  shows "(\<forall>w2 err2. getSession (invalidateSession w1) = (w2, Inl err2) \<longrightarrow>
            fetchBatch wa (pre @ symb # post)
              = (w2, quotes, Some (''refresh yahoo session: '' @ err2))
            \<and> chart_calls w2 symb
                = chart_calls w symb @ [(clock w, ChartGet symb (crumb sess) (cookie sess))])
       \<and> (\<forall>w2 sess2. getSession (invalidateSession w1) = (w2, Inr sess2) \<longrightarrow>
            session w2 = Some sess2
            \<and> (\<exists>t. wire w2 = wire w @ [(clock w, ChartGet symb (crumb sess) (cookie sess)),
                                         (clock w1, ConsentGet), (t, CrumbGet (cookie sess2))])
            \<and> wire (fst (fetchOne w2 symb sess2))
                = wire w2 @ [(clock w2, ChartGet symb (crumb sess2) (cookie sess2))]
            \<and> fetchBatch wa (pre @ symb # post)
                = (case fetchOne w2 symb sess2 of
                     (w3, Inl err3) \<Rightarrow> (w3, quotes, Some (''fetch '' @ symb @ '': '' @ err3))
                   | (w3, Inr q) \<Rightarrow> fetchBatch_loop w3 sess2 (quotes(symb \<mapsto> q)) post)
            \<and> (\<forall>resp2 d2. upstream w (length (wire w2)) = (Response resp2, d2)
                   \<and> (StatusCode resp2 = 401 \<or> StatusCode resp2 = 403) \<longrightarrow>
                 fetchBatch wa (pre @ symb # post)
                   = (fst (fetchOne w2 symb sess2), quotes,
                      Some (''fetch '' @ symb @ '': auth error: HTTP '' @ digits (StatusCode resp2)))))"
proof -
  obtain r1 where f1: "fetchOne w symb sess = (w1, r1)"
    using w1 by (cases "fetchOne w symb sess") simp
  note p1 = fetchOne_props [OF f1]
  note step = fetchBatch_step_refused [OF first refused, of sess symb, folded w1]
  have batch: "fetchBatch wa (pre @ symb # post) =
      (case fetchBatch_step w sess symb of
         (wn, Inl err) \<Rightarrow> (wn, quotes, Some err)
       | (wn, Inr (q, sess1)) \<Rightarrow> fetchBatch_loop wn sess1 (quotes(symb \<mapsto> q)) post)"
    unfolding fetchBatch_reaches [OF start reach] quotes by simp
  have a: "\<forall>w2 err2. getSession (invalidateSession w1) = (w2, Inl err2) \<longrightarrow>
            fetchBatch wa (pre @ symb # post)
              = (w2, quotes, Some (''refresh yahoo session: '' @ err2))
            \<and> chart_calls w2 symb
                = chart_calls w symb @ [(clock w, ChartGet symb (crumb sess) (cookie sess))]"
  proof (intro allI impI)
    fix w2 err2 assume g: "getSession (invalidateSession w1) = (w2, Inl err2)"
    from getSession_props(3) [OF g] obtain new where
      "wire w2 = wire w1 @ new" "\<forall>x. filter (chart_for x) new = []"
      by (auto simp: invalidateSession_def)
    then have "chart_calls w2 symb
        = chart_calls w symb @ [(clock w, ChartGet symb (crumb sess) (cookie sess))]"
      using p1(4) by (simp add: chart_calls_def)
    moreover have "fetchBatch wa (pre @ symb # post)
        = (w2, quotes, Some (''refresh yahoo session: '' @ err2))"
      unfolding batch step g by simp
    ultimately show "fetchBatch wa (pre @ symb # post)
              = (w2, quotes, Some (''refresh yahoo session: '' @ err2))
            \<and> chart_calls w2 symb
                = chart_calls w symb @ [(clock w, ChartGet symb (crumb sess) (cookie sess))]"
      by simp
  qed
  have b: "\<forall>w2 sess2. getSession (invalidateSession w1) = (w2, Inr sess2) \<longrightarrow>
            session w2 = Some sess2
            \<and> (\<exists>t. wire w2 = wire w @ [(clock w, ChartGet symb (crumb sess) (cookie sess)),
                                         (clock w1, ConsentGet), (t, CrumbGet (cookie sess2))])
            \<and> wire (fst (fetchOne w2 symb sess2))
                = wire w2 @ [(clock w2, ChartGet symb (crumb sess2) (cookie sess2))]
            \<and> fetchBatch wa (pre @ symb # post)
                = (case fetchOne w2 symb sess2 of
                     (w3, Inl err3) \<Rightarrow> (w3, quotes, Some (''fetch '' @ symb @ '': '' @ err3))
                   | (w3, Inr q) \<Rightarrow> fetchBatch_loop w3 sess2 (quotes(symb \<mapsto> q)) post)
            \<and> (\<forall>resp2 d2. upstream w (length (wire w2)) = (Response resp2, d2)
                   \<and> (StatusCode resp2 = 401 \<or> StatusCode resp2 = 403) \<longrightarrow>
                 fetchBatch wa (pre @ symb # post)
                   = (fst (fetchOne w2 symb sess2), quotes,
                      Some (''fetch '' @ symb @ '': auth error: HTTP '' @ digits (StatusCode resp2))))"
  proof (intro allI impI)
    fix w2 sess2 assume g: "getSession (invalidateSession w1) = (w2, Inr sess2)"
    note pg = getSession_props [OF g]
    have s2: "session w2 = Some sess2" using pg(6) by simp
    obtain wn where n: "fetchNewSession (invalidateSession w1) = (wn, Inr sess2)"
      and w2: "w2 = wn\<lparr>session := Some sess2\<rparr>"
      using g
      by (auto simp: getSession_def invalidateSession_def split: prod.splits sum.splits)
    from fetchNewSession_success [OF n] obtain t where
      "wire wn = wire w1 @ [(clock w1, ConsentGet), (t, CrumbGet (cookie sess2))]"
      by (auto simp: invalidateSession_def)
    then have "wire w2 = wire w @ [(clock w, ChartGet symb (crumb sess) (cookie sess)),
                                         (clock w1, ConsentGet), (t, CrumbGet (cookie sess2))]"
      using p1(4) w2 by simp
    then have wire2: "\<exists>t. wire w2 = wire w @ [(clock w, ChartGet symb (crumb sess) (cookie sess)),
                                         (clock w1, ConsentGet), (t, CrumbGet (cookie sess2))]" ..
    obtain w3 r2 where f3: "fetchOne w2 symb sess2 = (w3, r2)" by (cases "fetchOne w2 symb sess2")
    note p3 = fetchOne_props [OF f3]
    have res: "fetchBatch wa (pre @ symb # post)
                = (case fetchOne w2 symb sess2 of
                     (w3, Inl err3) \<Rightarrow> (w3, quotes, Some (''fetch '' @ symb @ '': '' @ err3))
                   | (w3, Inr q) \<Rightarrow> fetchBatch_loop w3 sess2 (quotes(symb \<mapsto> q)) post)"
      unfolding batch step g by (simp add: f3 split: sum.splits)
    have up: "upstream w2 = upstream w" using pg(2) p1(3) by (simp add: invalidateSession_def)
    have second: "\<forall>resp2 d2. upstream w (length (wire w2)) = (Response resp2, d2)
                   \<and> (StatusCode resp2 = 401 \<or> StatusCode resp2 = 403) \<longrightarrow>
                 fetchBatch wa (pre @ symb # post)
                   = (fst (fetchOne w2 symb sess2), quotes,
                      Some (''fetch '' @ symb @ '': auth error: HTTP '' @ digits (StatusCode resp2)))"
    proof (intro allI impI)
      fix resp2 d2
      assume h: "upstream w (length (wire w2)) = (Response resp2, d2)
                   \<and> (StatusCode resp2 = 401 \<or> StatusCode resp2 = 403)"
      then have "snd (fetchOne w2 symb sess2) = Inl (''auth error: HTTP '' @ digits (StatusCode resp2))"
        using fetchOne_refused [of w2 resp2 d2 symb sess2] up by simp
      then have "r2 = Inl (''auth error: HTTP '' @ digits (StatusCode resp2))" using f3 by simp
      then show "fetchBatch wa (pre @ symb # post)
                   = (fst (fetchOne w2 symb sess2), quotes,
                      Some (''fetch '' @ symb @ '': auth error: HTTP '' @ digits (StatusCode resp2)))"
        unfolding res f3 by simp
    qed
    have w3: "wire (fst (fetchOne w2 symb sess2))
                = wire w2 @ [(clock w2, ChartGet symb (crumb sess2) (cookie sess2))]"
      using p3(4) f3 by simp
    from s2 wire2 w3 res second
    show "session w2 = Some sess2
            \<and> (\<exists>t. wire w2 = wire w @ [(clock w, ChartGet symb (crumb sess) (cookie sess)),
                                         (clock w1, ConsentGet), (t, CrumbGet (cookie sess2))])
            \<and> wire (fst (fetchOne w2 symb sess2))
                = wire w2 @ [(clock w2, ChartGet symb (crumb sess2) (cookie sess2))]
            \<and> fetchBatch wa (pre @ symb # post)
                = (case fetchOne w2 symb sess2 of
                     (w3, Inl err3) \<Rightarrow> (w3, quotes, Some (''fetch '' @ symb @ '': '' @ err3))
                   | (w3, Inr q) \<Rightarrow> fetchBatch_loop w3 sess2 (quotes(symb \<mapsto> q)) post)
            \<and> (\<forall>resp2 d2. upstream w (length (wire w2)) = (Response resp2, d2)
                   \<and> (StatusCode resp2 = 401 \<or> StatusCode resp2 = 403) \<longrightarrow>
                 fetchBatch wa (pre @ symb # post)
                   = (fst (fetchOne w2 symb sess2), quotes,
                      Some (''fetch '' @ symb @ '': auth error: HTTP '' @ digits (StatusCode resp2))))"
      by (intro conjI)
  qed
  from a b show ?thesis by (rule conjI)
qed

text \<open>
  The claim as stated fails when the refresh fails: AAPL is refused, the consent response
  has no cookie, and the only chart request on the wire is the refused one. It also fails
  after a second refusal: the batch ends there, and MSFT behind AAPL is never asked for.
\<close>

theorem fetchBatch_auth_counterexample:
  "map snd (wire (fst (fetchBatch refused_no_refresh [''AAPL''])))
     = [ChartGet ''AAPL'' ''mJ8Zx0'' ''A3=d=AQAB'', ConsentGet]
   \<and> snd (snd (fetchBatch refused_no_refresh [''AAPL'']))
       = Some ''refresh yahoo session: no cookie returned from Yahoo consent endpoint''
   \<and> snd (snd (fetchBatch refused_twice [''AAPL'', ''MSFT'']))
       = Some ''fetch AAPL: auth error: HTTP 403''
   \<and> chart_calls (fst (fetchBatch refused_twice [''AAPL'', ''MSFT''])) ''MSFT'' = []"
  by (simp add: refused_no_refresh_def refused_twice_def client_in_session_def old_session_def fixture_defs run_defs
      chart_calls_def)

text \<open>
  A batch of two symbols in session. The first is refused, the session exchange succeeds and
  the retry is refused: the last request on the wire is the retry with the new crumb and
  cookie, and the batch ends with the error for the first symbol. The first is refused and
  the session exchange fails: the batch ends with that error after the one chart request.
\<close>

theorem fetchBatch_auth_retry_witness:
  "getSession refused_twice = (refused_twice, Inr old_session)
   \<and> fetchBatch_upto refused_twice old_session [] = Some (refused_twice, old_session)
   \<and> upstream refused_twice (length (wire refused_twice)) = (Response (text_reply 401 [] []), 20000000)
   \<and> snd (getSession (invalidateSession (fst (fetchOne refused_twice ''AAPL'' old_session))))
       = Inr \<lparr>cookie = ''A3=d=NEW'', crumb = ''Zz9'', expiresAt = 60060000000 + sessionTTL\<rparr>
   \<and> snd (last (wire (fst (fetchBatch refused_twice [''AAPL'', ''MSFT'']))))
       = ChartGet ''AAPL'' ''Zz9'' ''A3=d=NEW''
   \<and> snd (snd (fetchBatch refused_twice [''AAPL'', ''MSFT''])) = Some ''fetch AAPL: auth error: HTTP 403''
   \<and> snd (snd (fetchBatch refused_no_refresh [''AAPL'', ''MSFT'']))
       = Some ''refresh yahoo session: no cookie returned from Yahoo consent endpoint''
   \<and> chart_calls (fst (fetchBatch refused_no_refresh [''AAPL'', ''MSFT''])) ''AAPL''
       = [(Minute, ChartGet ''AAPL'' ''mJ8Zx0'' ''A3=d=AQAB'')]"
proof -
  have refused: "StatusCode (text_reply 401 [] []) = 401 \<or> StatusCode (text_reply 401 [] []) = 403"
    by (simp add: text_reply_def)
  have start0: "getSession refused_no_refresh = (refused_no_refresh, Inr old_session)"
    by (rule getSession_valid)
      (simp_all add: refused_no_refresh_def client_in_session_def old_session_def fixture_defs)
  have reach0: "fetchBatch_upto refused_no_refresh old_session [] = Some (refused_no_refresh, old_session)"
    by simp
  have first0: "upstream refused_no_refresh (length (wire refused_no_refresh))
      = (Response (text_reply 401 [] []), 20000000)"
    by (simp add: refused_no_refresh_def client_in_session_def old_session_def fixture_defs)
  let ?v1 = "fst (fetchOne refused_no_refresh ''AAPL'' old_session)"
  have "snd (getSession (invalidateSession ?v1)) = Inl ''no cookie returned from Yahoo consent endpoint''"
    by (simp add: refused_no_refresh_def client_in_session_def old_session_def fixture_defs run_defs)
  then have g0: "getSession (invalidateSession ?v1)
      = (fst (getSession (invalidateSession ?v1)), Inl ''no cookie returned from Yahoo consent endpoint'')"
    by (simp add: prod_eq_iff)
  note t0 = fetchBatch_auth_retry [OF start0 reach0 refl first0 refused refl,
      of "''AAPL''" "[''MSFT'']", THEN conjunct1, rule_format, OF g0]
  have cc0: "chart_calls refused_no_refresh ''AAPL'' = []" "clock refused_no_refresh = Minute"
    "crumb old_session = ''mJ8Zx0''" "cookie old_session = ''A3=d=AQAB''"
    by (simp_all add: refused_no_refresh_def client_in_session_def old_session_def fixture_defs
        chart_calls_def)
  have no_refresh: "snd (snd (fetchBatch refused_no_refresh [''AAPL'', ''MSFT'']))
       = Some ''refresh yahoo session: no cookie returned from Yahoo consent endpoint''"
    "chart_calls (fst (fetchBatch refused_no_refresh [''AAPL'', ''MSFT''])) ''AAPL''
       = [(Minute, ChartGet ''AAPL'' ''mJ8Zx0'' ''A3=d=AQAB'')]"
    using t0 cc0 by simp_all
  let ?w1 = "fst (fetchOne refused_twice ''AAPL'' old_session)"
  let ?w2 = "fst (getSession (invalidateSession ?w1))"
  let ?s2 = "\<lparr>cookie = ''A3=d=NEW'', crumb = ''Zz9'', expiresAt = 60060000000 + sessionTTL\<rparr>"
  have start: "getSession refused_twice = (refused_twice, Inr old_session)"
    by (rule getSession_valid)
      (simp_all add: refused_twice_def client_in_session_def old_session_def fixture_defs)
  have reach: "fetchBatch_upto refused_twice old_session [] = Some (refused_twice, old_session)"
    by simp
  have first: "upstream refused_twice (length (wire refused_twice)) = (Response (text_reply 401 [] []), 20000000)"
    by (simp add: refused_twice_def client_in_session_def old_session_def fixture_defs)
  have g2: "snd (getSession (invalidateSession ?w1)) = Inr ?s2"
    by (simp add: refused_twice_def client_in_session_def old_session_def fixture_defs run_defs)
  then have g: "getSession (invalidateSession ?w1) = (?w2, Inr ?s2)"
    by (simp add: prod_eq_iff)
  have again: "upstream refused_twice (length (wire ?w2)) = (Response (text_reply 403 [] []), 20000000)
      \<and> (StatusCode (text_reply 403 [] []) = 401 \<or> StatusCode (text_reply 403 [] []) = 403)"
    by (simp add: refused_twice_def client_in_session_def old_session_def fixture_defs run_defs)
  note t = fetchBatch_auth_retry [OF start reach refl first refused refl,
      of "''AAPL''" "[''MSFT'']", THEN conjunct2, rule_format, OF g]
  have w3: "wire (fst (fetchOne ?w2 ''AAPL'' ?s2))
      = wire ?w2 @ [(clock ?w2, ChartGet ''AAPL'' ''Zz9'' ''A3=d=NEW'')]"
    using t by simp
  have end2: "fetchBatch refused_twice ([] @ ''AAPL'' # [''MSFT''])
      = (fst (fetchOne ?w2 ''AAPL'' ?s2), fst (snd (fetchBatch refused_twice [])),
         Some (''fetch '' @ ''AAPL'' @ '': auth error: HTTP '' @ digits (StatusCode (text_reply 403 [] []))))"
    using t again by blast
  have "snd (last (wire (fst (fetchBatch refused_twice [''AAPL'', ''MSFT'']))))
       = ChartGet ''AAPL'' ''Zz9'' ''A3=d=NEW''"
    "snd (snd (fetchBatch refused_twice [''AAPL'', ''MSFT''])) = Some ''fetch AAPL: auth error: HTTP 403''"
    using end2 w3 by (simp_all add: text_reply_def digits.simps)
  with start reach first g2 no_refresh show ?thesis by (intro conjI)
qed

section \<open>Callers that overlap\<close>

text \<open>
  Claim C1 fails on the code. Two callers ask for the uncached AAPL and both look the cache
  up before either has fetched: the wire then shows two chart requests for AAPL, and the
  callers get different quotes, 150 and 151.
\<close>

theorem GetQuotes_overlapped_fetches_twice:
  "map snd (chart_calls (fst (GetQuotes_overlapped asked_twice [''AAPL''] [''AAPL''])) ''AAPL'')
     = [ChartGet ''AAPL'' ''mJ8Zx0'' ''A3=d=AQAB'', ChartGet ''AAPL'' ''mJ8Zx0'' ''A3=d=AQAB'']
   \<and> fst (fst (snd (GetQuotes_overlapped asked_twice [''AAPL''] [''AAPL'']))) ''AAPL''
       = Some \<lparr>Symbol = ''AAPL'', Price = 150, Currency = ''USD''\<rparr>
   \<and> fst (snd (snd (GetQuotes_overlapped asked_twice [''AAPL''] [''AAPL'']))) ''AAPL''
       = Some \<lparr>Symbol = ''AAPL'', Price = 151, Currency = ''USD''\<rparr>"
  by (simp add: GetQuotes_overlapped_def asked_twice_def fixture_defs run_defs
      chart_calls_def)


section \<open>The rate limit\<close>

text \<open>
  Claim C3 fails on the code. \<open>loadConfig\<close> gives the same configuration whatever
  \<open>RATE_LIMIT_PER_SEC\<close> is set to. With the variable set to one request per second and an
  upstream that answers in 20 milliseconds, a call for three uncached symbols sends its five
  requests 20 milliseconds apart, the three chart requests within 40 milliseconds.
\<close>

theorem rate_limit_ignored:
  "loadConfig ParseDuration (env(''RATE_LIMIT_PER_SEC'' := v)) = loadConfig ParseDuration env
   \<and> (case main_client sample_durations limited_env 0 three_answer of
         Inl fatal \<Rightarrow> False
       | Inr w \<Rightarrow>
           wire (fst (GetQuotes w [''AAPL'', ''MSFT'', ''TSLA'']))
             = [(0, ConsentGet), (20000000, CrumbGet ''A3=d=AQAB''),
                (40000000, ChartGet ''AAPL'' ''mJ8Zx0'' ''A3=d=AQAB''),
                (60000000, ChartGet ''MSFT'' ''mJ8Zx0'' ''A3=d=AQAB''),
                (80000000, ChartGet ''TSLA'' ''mJ8Zx0'' ''A3=d=AQAB'')])"
proof -
  have a: "loadConfig ParseDuration (env(''RATE_LIMIT_PER_SEC'' := v)) = loadConfig ParseDuration env"
    by (simp add: loadConfig_def getEnv_def mustEnv_def)
  have b: "main_client sample_durations limited_env 0 three_answer
      = Inr (NewYahooClient (NewPriceCache (15 * Minute)) 0 three_answer)"
    by (simp add: main_client_def loadConfig_def getEnv_def mustEnv_def limited_env_def
        sample_durations_def)
  have c: "wire (fst (GetQuotes (NewYahooClient (NewPriceCache (15 * Minute)) 0 three_answer)
              [''AAPL'', ''MSFT'', ''TSLA'']))
             = [(0, ConsentGet), (20000000, CrumbGet ''A3=d=AQAB''),
                (40000000, ChartGet ''AAPL'' ''mJ8Zx0'' ''A3=d=AQAB''),
                (60000000, ChartGet ''MSFT'' ''mJ8Zx0'' ''A3=d=AQAB''),
                (80000000, ChartGet ''TSLA'' ''mJ8Zx0'' ''A3=d=AQAB'')]"
    by (simp add: three_answer_def fixture_defs run_defs)
  from a b c show ?thesis by simp
qed

section \<open>The scheduler tick\<close>

lemma GetQuotes_wire:
  assumes "GetQuotes w symbols = (w', m, err)"
  shows "\<exists>new. wire w' = wire w @ new"
  using assms
proof (cases rule: GetQuotes_cases)
  case hit
  then show ?thesis by simp
next
  case (failed w1 fetched e)
  from fetchBatch_props(6) [OF failed(2)] failed(3) show ?thesis by blast
next
  case (fetched w1 fetched)
  from fetchBatch_props(6) [OF fetched(2)] obtain new where "wire w1 = wire w @ new" by blast
  then show ?thesis by (simp add: fetched(3))
qed

lemma ComputeBalance_wire:
  assumes "ComputeBalance r w chatID = (w', res)"
  shows "\<exists>new. wire w' = wire w @ new"
proof (cases "GetHoldings r chatID")
  case (Inl e)
  with assms show ?thesis by (simp add: ComputeBalance_def)
next
  case (Inr holdings)
  show ?thesis
  proof (cases "holdings = []")
    case True
    with assms Inr show ?thesis by (simp add: ComputeBalance_def)
  next
    case False
    obtain w1 quotes err where g: "GetQuotes w (map holding_Symbol holdings) = (w1, quotes, err)"
      by (metis prod_cases3)
    with assms Inr False have "w' = w1"
      by (auto simp: ComputeBalance_def Let_def split: option.splits if_splits)
    with GetQuotes_wire [OF g] show ?thesis by simp
  qed
qed

lemma ComputeBalance_no_holdings:
  assumes "chatID \<notin> ChatID ` set (rows r)"
  shows "ComputeBalance r w chatID = (w, Inr None) \<or> (\<exists>e. ComputeBalance r w chatID = (w, Inl e))"
proof -
  have "filter (\<lambda>h. ChatID h = chatID) (rows r) = []"
    using assms by (auto simp: filter_empty_conv)
  then show ?thesis
    by (simp add: ComputeBalance_def GetHoldings_def split: option.splits)
qed

text \<open>One round of the loop over the users.\<close>

lemma notify_loop_Cons:
  "notify_loop Format r w (chatID # users) sent =
     notify_loop Format r (fst (ComputeBalance r w chatID)) users
       (case snd (ComputeBalance r w chatID) of
          Inr (Some report) \<Rightarrow> if Holdings report = [] then sent else sent @ [(chatID, Format report)]
        | _ \<Rightarrow> sent)"
  by (simp split: prod.splits sum.splits option.splits)

lemma notify_loop_sent:
  "\<exists>more. snd (notify_loop Format r w users sent) = sent @ more \<and> fst ` set more \<subseteq> set users
      \<and> fst ` set more \<subseteq> ChatID ` set (rows r)"
proof (induction users arbitrary: w sent)
  case Nil
  show ?case by simp
next
  case (Cons chatID users)
  let ?w1 = "fst (ComputeBalance r w chatID)"
  let ?sent1 = "case snd (ComputeBalance r w chatID) of
          Inr (Some report) \<Rightarrow> if Holdings report = [] then sent else sent @ [(chatID, Format report)]
        | _ \<Rightarrow> sent"
  from Cons.IH [of ?w1 ?sent1] obtain more where m:
    "snd (notify_loop Format r ?w1 users ?sent1) = ?sent1 @ more" "fst ` set more \<subseteq> set users"
    "fst ` set more \<subseteq> ChatID ` set (rows r)"
    by blast
  have "\<exists>one. ?sent1 = sent @ one \<and> fst ` set one \<subseteq> {chatID} \<and> fst ` set one \<subseteq> ChatID ` set (rows r)"
  proof (cases "chatID \<in> ChatID ` set (rows r)")
    case True
    then show ?thesis by (auto split: sum.splits option.splits)
  next
    case False
    from ComputeBalance_no_holdings [OF this, of w] show ?thesis by auto
  qed
  then obtain one where o: "?sent1 = sent @ one" "fst ` set one \<subseteq> {chatID}"
    "fst ` set one \<subseteq> ChatID ` set (rows r)" by blast
  have "snd (notify_loop Format r w (chatID # users) sent) = sent @ (one @ more)
      \<and> fst ` set (one @ more) \<subseteq> set (chatID # users)
      \<and> fst ` set (one @ more) \<subseteq> ChatID ` set (rows r)"
    using m o unfolding notify_loop_Cons by (auto simp: image_Un)
  then show ?case by blast
qed

lemma notify_loop_append:
  "notify_loop Format r w (before @ after) sent =
     notify_loop Format r (fst (notify_loop Format r w before sent)) after
       (snd (notify_loop Format r w before sent))"
proof (induction before arbitrary: w sent)
  case Nil
  show ?case by simp
next
  case (Cons c before)
  show ?case unfolding append_Cons notify_loop_Cons by (rule Cons.IH)
qed

lemma notify_loop_wire:
  "\<exists>new. wire (fst (notify_loop Format r w users sent)) = wire w @ new"
proof (induction users arbitrary: w sent)
  case Nil
  show ?case by simp
next
  case (Cons chatID users)
  let ?w1 = "fst (ComputeBalance r w chatID)"
  let ?sent1 = "case snd (ComputeBalance r w chatID) of
          Inr (Some report) \<Rightarrow> if Holdings report = [] then sent else sent @ [(chatID, Format report)]
        | _ \<Rightarrow> sent"
  from ComputeBalance_wire [of r w chatID ?w1 "snd (ComputeBalance r w chatID)"]
  obtain new1 where "wire ?w1 = wire w @ new1" by auto
  moreover from Cons.IH [of ?w1 ?sent1] obtain new2 where
    "wire (fst (notify_loop Format r ?w1 users ?sent1)) = wire ?w1 @ new2" by blast
  ultimately have "wire (fst (notify_loop Format r w (chatID # users) sent)) = wire w @ (new1 @ new2)"
    unfolding notify_loop_Cons by simp
  then show ?case by blast
qed

text \<open>
  Claim C9. When the two roster queries of a tick answer, the active users are exactly the
  consumers with a row in the holdings table, and the tick is the loop over them run from
  the state the prewarm call left, whether that call returned an error or not; the requests
  of the prewarm are on the wire before anything the loop sends. A consumer without a row
  is not notified. A consumer whose balance, computed when its turn comes, is a report with
  at least one line is notified with that report, whatever happened to the consumers
  before it.
\<close>

theorem notifyAll_prewarm_then_fanout:
  assumes symbols: "GetDistinctSymbols r = Inr symbols"
    and users: "GetAllActiveUsers r = Inr users"
  shows "set users = ChatID ` set (rows r)
       \<and> notifyAll Format r w = notify_loop Format r (fst (GetQuotes w symbols)) users []
       \<and> (\<exists>later. wire (fst (notifyAll Format r w)) = wire (fst (GetQuotes w symbols)) @ later)
       \<and> (\<forall>c. c \<notin> ChatID ` set (rows r) \<longrightarrow> c \<notin> fst ` set (snd (notifyAll Format r w)))
       \<and> (\<forall>before c after report. users = before @ c # after
              \<and> snd (ComputeBalance r
                       (fst (notify_loop Format r (fst (GetQuotes w symbols)) before [])) c)
                  = Inr (Some report)
              \<and> Holdings report \<noteq> [] \<longrightarrow>
            (c, Format report) \<in> set (snd (notifyAll Format r w)))"
proof -
  let ?w0 = "fst (GetQuotes w symbols)"
  have u: "users = remdups (map ChatID (rows r))"
    using users by (simp add: GetAllActiveUsers_def split: option.splits)
  have s: "symbols = sort (remdups (map holding_Symbol (rows r)))"
    using symbols by (simp add: GetDistinctSymbols_def split: option.splits)
  have 1: "set users = ChatID ` set (rows r)" by (simp add: u)
  have 2: "notifyAll Format r w = notify_loop Format r ?w0 users []"
  proof (cases "symbols = []")
    case True
    then have "set (sort (remdups (map holding_Symbol (rows r)))) = {}" using s by simp
    then have "rows r = []" by simp
    then have "users = []" by (simp add: u)
    with True symbols show ?thesis by (simp add: notifyAll_def GetQuotes_def)
  next
    case False
    with symbols users show ?thesis
      by (simp add: notifyAll_def split: prod.splits)
  qed
  have 3: "\<exists>later. wire (fst (notifyAll Format r w)) = wire ?w0 @ later"
    unfolding 2 by (rule notify_loop_wire)
  from notify_loop_sent [of Format r ?w0 users "[]"] obtain more where m:
    "snd (notifyAll Format r w) = more" "fst ` set more \<subseteq> ChatID ` set (rows r)"
    unfolding 2 by auto
  have 4: "\<forall>c. c \<notin> ChatID ` set (rows r) \<longrightarrow> c \<notin> fst ` set (snd (notifyAll Format r w))"
    using m by auto
  have 5: "\<forall>before c after report. users = before @ c # after
              \<and> snd (ComputeBalance r (fst (notify_loop Format r ?w0 before [])) c) = Inr (Some report)
              \<and> Holdings report \<noteq> [] \<longrightarrow>
            (c, Format report) \<in> set (snd (notifyAll Format r w))"
  proof (intro allI impI)
    fix before c after report
    assume h: "users = before @ c # after
              \<and> snd (ComputeBalance r (fst (notify_loop Format r ?w0 before [])) c) = Inr (Some report)
              \<and> Holdings report \<noteq> []"
    let ?wc = "fst (notify_loop Format r ?w0 before [])"
    let ?sc = "snd (notify_loop Format r ?w0 before [])"
    have "notifyAll Format r w =
        notify_loop Format r (fst (ComputeBalance r ?wc c)) after (?sc @ [(c, Format report)])"
      using h unfolding 2 by (simp del: notify_loop.simps add: notify_loop_append notify_loop_Cons)
    moreover from notify_loop_sent [of Format r "fst (ComputeBalance r ?wc c)" after "?sc @ [(c, Format report)]"]
    obtain more where "snd (notify_loop Format r (fst (ComputeBalance r ?wc c)) after (?sc @ [(c, Format report)]))
        = (?sc @ [(c, Format report)]) @ more" by blast
    ultimately show "(c, Format report) \<in> set (snd (notifyAll Format r w))" by simp
  qed
  from 1 2 3 4 5 show ?thesis by blast
qed

text \<open>
  A tick in which the holdings query of consumer 1 fails: consumer 2 is notified all the
  same, and consumer 3, who holds nothing, is not.
\<close>

theorem notifyAll_prewarm_then_fanout_witness:
  "GetDistinctSymbols locked_repo = Inr [''AAPL'', ''TSLA'']
   \<and> GetAllActiveUsers locked_repo = Inr [1, 2]
   \<and> (2, ''AAPL, TSLA'') \<in> set (snd (notifyAll sample_format locked_repo tick_world))
   \<and> 3 \<notin> fst ` set (snd (notifyAll sample_format locked_repo tick_world))"
proof -
  have s: "GetDistinctSymbols locked_repo = Inr [''AAPL'', ''TSLA'']"
    by (simp add: locked_repo_def sample_repo_def GetDistinctSymbols_def less_eq_char_def
        less_char_def)
  have u: "GetAllActiveUsers locked_repo = Inr [1, 2]"
    by (simp add: locked_repo_def sample_repo_def GetAllActiveUsers_def)
  note t = notifyAll_prewarm_then_fanout [OF s u, of sample_format tick_world]
  have none: "3 \<notin> ChatID ` set (rows locked_repo)"
    by (simp add: locked_repo_def sample_repo_def)
  have turn: "[1, 2] = [1] @ 2 # []
      \<and> snd (ComputeBalance locked_repo
               (fst (notify_loop sample_format locked_repo
                       (fst (GetQuotes tick_world [''AAPL'', ''TSLA''])) [1] [])) 2)
          = Inr (Some \<lparr>Holdings = [\<lparr>line_Symbol = ''AAPL'', line_Name = ''Apple'', line_Shares = 1,
                                       line_Price = 150, Value = 150\<rparr>,
                                     \<lparr>line_Symbol = ''TSLA'', line_Name = ''Tesla'', line_Shares = 3,
                                       line_Price = 250, Value = 750\<rparr>],
                          TotalUSD = 900\<rparr>)
      \<and> Holdings \<lparr>Holdings = [\<lparr>line_Symbol = ''AAPL'', line_Name = ''Apple'', line_Shares = 1,
                                       line_Price = 150, Value = 150\<rparr>,
                                     \<lparr>line_Symbol = ''TSLA'', line_Name = ''Tesla'', line_Shares = 3,
                                       line_Price = 250, Value = 750\<rparr>],
                          TotalUSD = 900\<rparr> \<noteq> []"
    by (simp add: locked_repo_def sample_repo_def tick_world_def GetHoldings_def ComputeBalance_def
        less_eq_char_def less_char_def fixture_defs run_defs)
  from t [THEN conjunct2, THEN conjunct2, THEN conjunct2, THEN conjunct2, rule_format, OF turn]
  have two: "(2, ''AAPL, TSLA'') \<in> set (snd (notifyAll sample_format locked_repo tick_world))"
    by (simp add: sample_format_def)
  from t [THEN conjunct2, THEN conjunct2, THEN conjunct2, THEN conjunct1, rule_format, OF none]
  have three: "3 \<notin> fst ` set (snd (notifyAll sample_format locked_repo tick_world))" .
  from s u two three show ?thesis by blast
qed

end
